theory Spec2Isabelle
  imports Main "HOL-Library.Sublist"
begin

section \<open>Go library functions used by the \<open>methods\<close> and \<open>middleware\<close> packages\<close>

subsection \<open>Package \<open>strings\<close>\<close>

text \<open>
  A Go string is a sequence of bytes; \<^typ>\<open>string\<close> is a list of 8-bit characters.
  \<open>strings.Contains(s, substr)\<close> reports whether \<open>substr\<close> occurs in \<open>s\<close> as a
  contiguous run of bytes.
\<close>

fun Contains :: "string \<Rightarrow> string \<Rightarrow> bool" where
  "Contains [] substr = (substr = [])"
| "Contains (c # s) substr = (prefix substr (c # s) \<or> Contains s substr)"

text \<open>
  \<open>strings.Replace(s, old, new, 1)\<close>: the leftmost occurrence of \<open>old\<close> is replaced by
  \<open>new\<close>; without an occurrence \<open>s\<close> is returned as it is. An empty \<open>old\<close> matches at
  the start of \<open>s\<close>.
\<close>

fun ReplaceFirst :: "string \<Rightarrow> string \<Rightarrow> string \<Rightarrow> string" where
  "ReplaceFirst [] old new = (if old = [] then new else [])"
| "ReplaceFirst (c # s) old new =
     (if prefix old (c # s) then new @ drop (length old) (c # s)
      else c # ReplaceFirst s old new)"

text \<open>
  \<open>strings.TrimSpace\<close> cuts the white space runes (\<open>unicode.IsSpace\<close>) from both ends,
  the left end first. The runes are \<open>\t \n \v \f \r\<close>, the blank, U+0085, U+00A0, U+1680,
  U+2000 to U+200A, U+2028, U+2029, U+202F, U+205F and U+3000; \<open>spaceRunes\<close> lists
  their UTF-8 encodings. A byte that does not start or end a valid encoding of one of them
  stops the cut.
\<close>

definition spaceRunes :: "string list" where
  "spaceRunes =
    [[CHR 0x09], ''\<newline>'', [CHR 0x0B], [CHR 0x0C], [CHR 0x0D], [CHR 0x20],
     [CHR 0xC2, CHR 0x85], [CHR 0xC2, CHR 0xA0],
     [CHR 0xE1, CHR 0x9A, CHR 0x80],
     [CHR 0xE2, CHR 0x80, CHR 0x80], [CHR 0xE2, CHR 0x80, CHR 0x81],
     [CHR 0xE2, CHR 0x80, CHR 0x82], [CHR 0xE2, CHR 0x80, CHR 0x83],
     [CHR 0xE2, CHR 0x80, CHR 0x84], [CHR 0xE2, CHR 0x80, CHR 0x85],
     [CHR 0xE2, CHR 0x80, CHR 0x86], [CHR 0xE2, CHR 0x80, CHR 0x87],
     [CHR 0xE2, CHR 0x80, CHR 0x88], [CHR 0xE2, CHR 0x80, CHR 0x89],
     [CHR 0xE2, CHR 0x80, CHR 0x8A],
     [CHR 0xE2, CHR 0x80, CHR 0xA8], [CHR 0xE2, CHR 0x80, CHR 0xA9],
     [CHR 0xE2, CHR 0x80, CHR 0xAF],
     [CHR 0xE2, CHR 0x81, CHR 0x9F],
     [CHR 0xE3, CHR 0x80, CHR 0x80]]"

text \<open>
  A solid byte takes part in the encoding of no white space rune. Every printable ASCII
  character other than the blank is solid, so the characters of a JWT are.
\<close>

definition solid :: "char \<Rightarrow> bool" where
  "solid c = (c \<notin> set (concat spaceRunes))"

lemma spaceRunes_nonempty: "r \<in> set spaceRunes \<Longrightarrow> r \<noteq> []"
  by (auto simp: spaceRunes_def)

lemma spaceRunes_not_solid: "r \<in> set spaceRunes \<Longrightarrow> c \<in> set r \<Longrightarrow> \<not> solid c"
  by (auto simp: solid_def)

function TrimLeft :: "string \<Rightarrow> string" where
  "TrimLeft s =
     (case find (\<lambda>r. prefix r s) spaceRunes of
        None \<Rightarrow> s
      | Some r \<Rightarrow> TrimLeft (drop (length r) s))"
  by pat_completeness auto
termination
proof (relation "measure length")
  show "wf (measure length)" by simp
next
  fix s r
  assume "find (\<lambda>r. prefix r s) spaceRunes = Some r"
  then have "r \<in> set spaceRunes" and "prefix r s"
    by (auto simp: find_Some_iff)
  then have "r \<noteq> []" and "length r \<le> length s"
    by (auto simp: spaceRunes_nonempty prefix_length_le)
  then show "(drop (length r) s, s) \<in> measure length"
    by (cases r) auto
qed

function TrimRight :: "string \<Rightarrow> string" where
  "TrimRight s =
     (case find (\<lambda>r. suffix r s) spaceRunes of
        None \<Rightarrow> s
      | Some r \<Rightarrow> TrimRight (take (length s - length r) s))"
  by pat_completeness auto
termination
proof (relation "measure length")
  show "wf (measure length)" by simp
next
  fix s r
  assume "find (\<lambda>r. suffix r s) spaceRunes = Some r"
  then have "r \<in> set spaceRunes" and "suffix r s"
    by (auto simp: find_Some_iff)
  then have "r \<noteq> []" and "length r \<le> length s"
    by (auto simp: spaceRunes_nonempty suffix_length_le)
  then show "(take (length s - length r) s, s) \<in> measure length"
    by (cases r) auto
qed

declare TrimLeft.simps [simp del] TrimRight.simps [simp del]

definition TrimSpace :: "string \<Rightarrow> string" where
  "TrimSpace s = TrimRight (TrimLeft s)"

subsection \<open>Package \<open>os\<close>: the files the server keeps\<close>

text \<open>
  The server's durable state is a set of regular files, read and written whole through
  \<open>os.ReadFile\<close>, \<open>os.OpenFile\<close>, \<open>File.WriteString\<close> and \<open>os.Remove\<close>. A file
  system maps a path to the bytes of the file there. Whether a system call fails is not
  decided by the program: the sets \<open>read_fails\<close>, \<open>open_fails\<close>, \<open>write_fails\<close> and
  \<open>remove_fails\<close> hold the paths on which the respective call returns an error
  (permissions, a missing parent directory, a full disk). \<open>dirs\<close> holds the directories
  \<open>os.Stat\<close> finds. Requests are handled one at a time.
\<close>

type_synonym path = string

datatype error = ErrNotExist | ErrInvalid | ErrIO

record filesystem =
  files :: "path \<rightharpoonup> string"
  dirs :: "path set"
  read_fails :: "path set"
  open_fails :: "path set"
  write_fails :: "path set"
  remove_fails :: "path set"

definition ReadFile :: "filesystem \<Rightarrow> path \<Rightarrow> error + string" where
  "ReadFile fs p =
     (if p \<in> read_fails fs then Inl ErrIO
      else case files fs p of None \<Rightarrow> Inl ErrNotExist | Some c \<Rightarrow> Inr c)"

datatype open_flag = O_RDWR | O_WRONLY | O_CREATE | O_TRUNC | O_APPEND

text \<open>An open file: its path and whether writes go to the end (\<open>O_APPEND\<close>) or to offset 0.\<close>

record File =
  file_name :: path
  file_append :: bool

text \<open>
  \<open>os.OpenFile\<close> returns a nil file with its error. \<open>O_CREATE\<close> makes a missing file,
  empty; \<open>O_TRUNC\<close> empties the file at once, before anything is written.
\<close>

definition OpenFile :: "filesystem \<Rightarrow> path \<Rightarrow> open_flag list \<Rightarrow> filesystem \<times> File option" where
  "OpenFile fs p flags =
     (if p \<in> open_fails fs then (fs, None)
      else case files fs p of
        None \<Rightarrow>
          if O_CREATE \<in> set flags
          then (fs\<lparr>files := (files fs)(p \<mapsto> [])\<rparr>, Some \<lparr>file_name = p, file_append = (O_APPEND \<in> set flags)\<rparr>)
          else (fs, None)
      | Some c \<Rightarrow>
          (fs\<lparr>files := (files fs)(p \<mapsto> (if O_TRUNC \<in> set flags then [] else c))\<rparr>,
           Some \<lparr>file_name = p, file_append = (O_APPEND \<in> set flags)\<rparr>))"

text \<open>
  \<open>f.WriteString(s)\<close>, the one write each handle of the program gets. On a nil file it
  returns \<open>ErrInvalid\<close>. A write at offset 0 overwrites the first bytes of the file and
  keeps what lies beyond them.
\<close>

definition WriteString :: "filesystem \<Rightarrow> File option \<Rightarrow> string \<Rightarrow> filesystem \<times> error option" where
  "WriteString fs fo s =
     (case fo of
        None \<Rightarrow> (fs, Some ErrInvalid)
      | Some f \<Rightarrow>
          if file_name f \<in> write_fails fs then (fs, Some ErrIO)
          else
            let c = (case files fs (file_name f) of None \<Rightarrow> [] | Some c \<Rightarrow> c);
                c' = (if file_append f then c @ s else s @ drop (length s) c)
            in (fs\<lparr>files := (files fs)(file_name f \<mapsto> c')\<rparr>, None))"

definition Remove :: "filesystem \<Rightarrow> path \<Rightarrow> filesystem \<times> error option" where
  "Remove fs p =
     (if p \<in> remove_fails fs then (fs, Some ErrIO)
      else case files fs p of
        None \<Rightarrow> (fs, Some ErrNotExist)
      | Some c \<Rightarrow> (fs\<lparr>files := (files fs)(p := None)\<rparr>, None))"

text \<open>\<open>os.MkdirAll\<close>, its error dropped by the caller.\<close>

definition MkdirAll :: "filesystem \<Rightarrow> path \<Rightarrow> filesystem" where
  "MkdirAll fs d = fs\<lparr>dirs := insert d (dirs fs)\<rparr>"

section \<open>Package \<open>configuration\<close>\<close>

record Configuration =
  ListenAddress :: string
  SecretJWT :: string
  Issuer2FA :: string
  SecretsDir :: string
  TokensDir :: string
  StaticDir :: string

section \<open>Package \<open>methods\<close>: the token allow-list\<close>

text \<open>The live tokens of a user are the text of the file \<open>TokensDir/username\<close>.\<close>

definition tokensFile :: "Configuration \<Rightarrow> string \<Rightarrow> path" where
  "tokensFile cfg username = TokensDir cfg @ ''/'' @ username"

definition CheckTokenValidation :: "Configuration \<Rightarrow> filesystem \<Rightarrow> string \<Rightarrow> string \<Rightarrow> bool" where
  "CheckTokenValidation cfg fs username token =
     (case ReadFile fs (tokensFile cfg username) of
        Inl err \<Rightarrow> False
      | Inr secrestList \<Rightarrow> Contains secrestList token)"

definition SetTokenValidation :: "Configuration \<Rightarrow> filesystem \<Rightarrow> string \<Rightarrow> string \<Rightarrow> filesystem \<times> bool" where
  "SetTokenValidation cfg fs username token =
     (let (fs1, f) = OpenFile fs (tokensFile cfg username) [O_APPEND, O_WRONLY, O_CREATE];
          (fs2, err) = WriteString fs1 f (token @ ''\<newline>'')
      in if err \<noteq> None then (fs2, False) else (fs2, True))"

definition RemoveTokenValidation :: "Configuration \<Rightarrow> filesystem \<Rightarrow> string \<Rightarrow> string \<Rightarrow> filesystem \<times> bool" where
  "RemoveTokenValidation cfg fs username token =
     (case ReadFile fs (tokensFile cfg username) of
        Inl errR \<Rightarrow> (fs, False)
      | Inr secrestList \<Rightarrow>
          let res = ReplaceFirst secrestList token [];
              (fs1, f) = OpenFile fs (tokensFile cfg username) [O_RDWR, O_CREATE, O_TRUNC];
              (fs2, err) = WriteString fs1 f (TrimSpace res @ ''\<newline>'')
          in if err \<noteq> None then (fs2, False) else (fs2, True))"

section \<open>Package \<open>methods\<close>: the secret and the 2FA status of a user\<close>

definition userDir :: "Configuration \<Rightarrow> string \<Rightarrow> path" where
  "userDir cfg username = SecretsDir cfg @ ''/'' @ username"

definition secretFile :: "Configuration \<Rightarrow> string \<Rightarrow> path" where
  "secretFile cfg username = SecretsDir cfg @ ''/'' @ username @ ''/secret''"

definition statusFile :: "Configuration \<Rightarrow> string \<Rightarrow> path" where
  "statusFile cfg username = SecretsDir cfg @ ''/'' @ username @ ''/status''"

definition GetUserSecret :: "Configuration \<Rightarrow> filesystem \<Rightarrow> string \<Rightarrow> string" where
  "GetUserSecret cfg fs username =
     (case ReadFile fs (secretFile cfg username) of
        Inl err \<Rightarrow> []
      | Inr secret \<Rightarrow> secret)"

text \<open>
  \<open>SetUserSecret\<close> drops the error of the read: a failed read leaves \<open>secretB\<close> nil, of
  length 0. The secret file is opened without \<open>O_TRUNC\<close>.
\<close>

definition SetUserSecret ::
  "Configuration \<Rightarrow> filesystem \<Rightarrow> string \<Rightarrow> string \<Rightarrow> filesystem \<times> bool \<times> string" where
  "SetUserSecret cfg fs username secret =
     (let secretB = (case ReadFile fs (secretFile cfg username) of Inl err \<Rightarrow> [] | Inr b \<Rightarrow> b)
      in if length secretB = 0 then
           let fs0 = (if userDir cfg username \<notin> dirs fs then MkdirAll fs (userDir cfg username) else fs);
               (fs1, f) = OpenFile fs0 (secretFile cfg username) [O_WRONLY, O_CREATE];
               (fs2, err) = WriteString fs1 f secret
           in if err \<noteq> None then (fs2, False, []) else (fs2, True, secret)
         else (fs, True, secretB))"

section \<open>The libraries behind the handlers\<close>

text \<open>
  A decoded JSON value, as far as the handlers look at it: \<open>claims["id"]\<close> is compared
  with nil and asserted to be a string, \<open>claims["2fa"]\<close> is asserted to be a bool.
\<close>

datatype json = JNull | JBool bool | JString string | JOther

type_synonym MapClaims = "string \<rightharpoonup> json"

text \<open>Indexing a Go map: a missing key gives nil, as a JSON null does.\<close>

definition index :: "MapClaims \<Rightarrow> string \<Rightarrow> json" where
  "index claims k = (case claims k of None \<Rightarrow> JNull | Some v \<Rightarrow> v)"

text \<open>
  The signing methods of golang-jwt by their Go type: \<open>*SigningMethodHMAC\<close> (HS256, HS384,
  HS512), the method of \<open>alg = none\<close>, and every other registered method (RSA, RSA-PSS,
  ECDSA) under its \<open>alg\<close> name.
\<close>

datatype SigningMethod = SigningMethodHMAC string | SigningMethodNone | SigningMethodOther string

record jwt_Token =
  Raw :: string
  Method :: SigningMethod
  Claims :: MapClaims
  Valid :: bool

record OTPConfig =
  Secret :: string
  WindowSize :: int
  HotpCounter :: int

datatype jwt_error = ErrMalformed | ErrUnverifiable | ErrInvalidToken

datatype otp_error = ErrInvalidCode

text \<open>
  What the program takes from its libraries without their code being part of it:
  \<^item> \<open>jwt_decode\<close>: golang-jwt's \<open>ParseUnverified\<close>; it splits the token string, decodes
    header and claims and looks the header's \<open>alg\<close> up among the registered signing
    methods; \<open>None\<close> when one of these fails;
  \<^item> \<open>jwt_verify\<close>: the standard claims (expiry) and the signature of a decoded token
    under a key;
  \<^item> \<open>otp_Authenticate\<close>: dgoogauth's \<open>OTPConfig.Authenticate\<close> at the moment of the call.
\<close>

record library =
  jwt_decode :: "string \<Rightarrow> jwt_Token option"
  jwt_verify :: "jwt_Token \<Rightarrow> string \<Rightarrow> bool"
  otp_Authenticate :: "OTPConfig \<Rightarrow> string \<Rightarrow> bool \<times> otp_error option"

text \<open>
  \<open>jwtl.Parse(tokenString, keyFunc)\<close>: the token is decoded, \<open>keyFunc\<close> is called on the
  decoded token and its error ends the parse; with the key it returns the token is
  verified, and \<open>Valid\<close> is set on a token returned without error.
\<close>

definition Parse ::
  "library \<Rightarrow> string \<Rightarrow> (jwt_Token \<Rightarrow> jwt_error + string) \<Rightarrow> jwt_error + jwt_Token" where
  "Parse lib tokenString keyFunc =
     (case jwt_decode lib tokenString of
        None \<Rightarrow> Inl ErrMalformed
      | Some token \<Rightarrow>
          (case keyFunc token of
             Inl err \<Rightarrow> Inl ErrUnverifiable
           | Inr key \<Rightarrow>
               if jwt_verify lib token key then Inr (token\<lparr>Valid := True\<rparr>)
               else Inl ErrInvalidToken))"

section \<open>Package \<open>methods\<close>: validating a token\<close>

datatype panic = Panic

text \<open>The function literal \<open>ValidateAuth\<close> passes to \<open>jwtl.Parse\<close>.\<close>

definition keyFunc :: "Configuration \<Rightarrow> jwt_Token \<Rightarrow> jwt_error + string" where
  "keyFunc cfg token =
     (case Method token of
        SigningMethodHMAC alg \<Rightarrow> Inr (SecretJWT cfg)
      | _ \<Rightarrow> Inl ErrUnverifiable)"

text \<open>
  \<open>claims["id"].(string)\<close> panics on an id that is no string. The claims of a parsed token
  are always a \<open>MapClaims\<close>, so the type assertion on them holds.
\<close>

definition ValidateAuth ::
  "library \<Rightarrow> Configuration \<Rightarrow> filesystem \<Rightarrow> string \<Rightarrow> bool \<Rightarrow> panic + bool" where
  "ValidateAuth lib cfg fs tokenString ensureTokenExists =
     (if tokenString \<noteq> [] then
        (case Parse lib tokenString (keyFunc cfg) of
           Inl err \<Rightarrow> Inr False
         | Inr token \<Rightarrow>
             if Valid token then
               (if index (Claims token) ''id'' \<noteq> JNull then
                  (if ensureTokenExists then
                     (case index (Claims token) ''id'' of
                        JString username \<Rightarrow>
                          if \<not> CheckTokenValidation cfg fs username tokenString then Inr False
                          else Inr True
                      | _ \<Rightarrow> Inl Panic)
                   else Inr True)
                else Inr False)
             else Inr False)
      else Inr False)"

section \<open>Package \<open>methods\<close>: the handlers\<close>

text \<open>
  A handler answers with \<open>c.JSON(status, body)\<close>, the body a \<open>Code\<close>, a \<open>Message\<close> and
  \<open>Data\<close>; \<open>DataErr\<close> stands for an error value of a library. A handler that panics is
  answered by gin's recovery.
\<close>

datatype data = DataNil | DataString string | DataBool bool | DataErr

datatype response = JSON (http_status: nat) (Code: nat) (Message: string) (Data: data) | Panicked

text \<open>The body of \<open>POST /2FA/otp-verify\<close>, \<open>models.OTPJson\<close>; \<open>None\<close> when it does not bind.\<close>

record OTPJson =
  Username :: string
  Token :: string
  OTP :: string

definition OTPVerify ::
  "library \<Rightarrow> Configuration \<Rightarrow> filesystem \<Rightarrow> OTPJson option \<Rightarrow> filesystem \<times> response" where
  "OTPVerify lib cfg fs body =
     (case body of
        None \<Rightarrow> (fs, JSON 400 400 ''request fields malformed'' DataErr)
      | Some jsonOTP \<Rightarrow>
     (case ValidateAuth lib cfg fs (Token jsonOTP) False of
        Inl p \<Rightarrow> (fs, Panicked)
      | Inr valid \<Rightarrow>
     if \<not> valid then (fs, JSON 400 400 ''JWT token invalid'' (DataString []))
     else
       let secret = GetUserSecret cfg fs (Username jsonOTP) in
       if length secret = 0 then (fs, JSON 404 404 ''User secret not found'' (DataString []))
       else
         let otpc = \<lparr>Secret = secret, WindowSize = 3, HotpCounter = 0\<rparr>;
             (result, err) = otp_Authenticate lib otpc (OTP jsonOTP)
         in
         if err \<noteq> None \<or> \<not> result then (fs, JSON 400 400 ''OTP token invalid'' (DataString []))
         else
           let status = (case ReadFile fs (statusFile cfg (Username jsonOTP)) of
                           Inl err \<Rightarrow> [] | Inr b \<Rightarrow> b);
               statusOld = TrimSpace status;
               (fs2, errClean) =
                 (if statusOld = ''0'' \<or> statusOld = [] then
                    let (fs1, f) = OpenFile fs (tokensFile cfg (Username jsonOTP))
                                     [O_RDWR, O_CREATE, O_TRUNC]
                    in WriteString fs1 f []
                  else (fs, None))
           in
           if errClean \<noteq> None then (fs2, JSON 400 400 ''Clean previous tokens error'' DataErr)
           else
             let (fs3, set) = SetTokenValidation cfg fs2 (Username jsonOTP) (Token jsonOTP) in
             if \<not> set then (fs3, JSON 400 400 ''Token validation set error'' (DataString []))
             else
               let (fs4, f) = OpenFile fs3 (statusFile cfg (Username jsonOTP))
                                [O_RDWR, O_CREATE, O_TRUNC];
                   (fs5, err) = WriteString fs4 f ''1''
               in
               if err \<noteq> None then (fs5, JSON 400 400 ''Status set error'' DataErr)
               else (fs5, JSON 200 200 ''OTP verified'' (DataString (Token jsonOTP)))))"

text \<open>
  \<open>Get2FAStatus\<close> and \<open>Del2FAStatus\<close> run behind the JWT middleware and get the claims
  of the request's token; \<open>claims["id"].(string)\<close> is their first step.
\<close>

definition Get2FAStatus :: "Configuration \<Rightarrow> filesystem \<Rightarrow> MapClaims \<Rightarrow> response" where
  "Get2FAStatus cfg fs claims =
     (case index claims ''id'' of
        JString username \<Rightarrow>
          let r = ReadFile fs (statusFile cfg username);
              statusS = TrimSpace (case r of Inl err \<Rightarrow> [] | Inr status \<Rightarrow> status);
              (message, statusS') =
                (if \<not> (statusS = ''1'') \<or> isl r then (''2FA not set for this user'', ''0'')
                 else (''2FA set for this user'', statusS))
          in JSON 200 200 message (DataBool (statusS' = ''1''))
      | _ \<Rightarrow> Panicked)"

definition Del2FAStatus ::
  "Configuration \<Rightarrow> filesystem \<Rightarrow> MapClaims \<Rightarrow> filesystem \<times> response" where
  "Del2FAStatus cfg fs claims =
     (case index claims ''id'' of
        JString username \<Rightarrow>
          let (fs1, errRevocate) = Remove fs (secretFile cfg username) in
          if errRevocate \<noteq> None
          then (fs1, JSON 400 403 ''Error in revocate 2FA for user'' DataNil)
          else
            let (fs2, f) = OpenFile fs1 (statusFile cfg username) [O_RDWR, O_CREATE, O_TRUNC];
                (fs3, err) = WriteString fs2 f ''0''
            in if err \<noteq> None then (fs3, JSON 400 400 ''2FA not revocated'' (DataString []))
               else (fs3, JSON 200 200 ''2FA revocate successfully'' (DataString []))
      | _ \<Rightarrow> (fs, Panicked))"

section \<open>Package \<open>methods\<close> and \<open>middleware\<close>: login and the authorization of a request\<close>

definition CheckAuthentication :: "string \<Rightarrow> string \<Rightarrow> error option" where
  "CheckAuthentication username password = None"

text \<open>
  The login form and \<open>models.UserAuthorizations\<close> with the fields the middleware sets.
  The body of a login request is \<open>None\<close> when it does not parse; a field it leaves out is
  the empty string. Both fields carry \<open>binding:"required"\<close>, so \<open>c.ShouldBind\<close> refuses a
  body in which one of them is empty.
\<close>

record login =
  login_Username :: string
  login_Password :: string

record UserAuthorizations =
  user_Username :: string
  user_Role :: string
  user_Actions :: "string list"

datatype gin_jwt_error = ErrMissingLoginValues | ErrFailedAuthentication | ErrFailedTokenCreation

definition ShouldBind :: "login option \<Rightarrow> login option" where
  "ShouldBind body =
     (case body of
        None \<Rightarrow> None
      | Some loginVals \<Rightarrow>
          if login_Username loginVals = [] \<or> login_Password loginVals = [] then None
          else Some loginVals)"

definition Authenticator :: "login option \<Rightarrow> gin_jwt_error + UserAuthorizations" where
  "Authenticator body =
     (case ShouldBind body of
        None \<Rightarrow> Inl ErrMissingLoginValues
      | Some loginVals \<Rightarrow>
          let username = login_Username loginVals;
              password = login_Password loginVals
          in case CheckAuthentication username password of
               Some err \<Rightarrow> Inl ErrFailedAuthentication
             | None \<Rightarrow> Inr \<lparr>user_Username = username, user_Role = [], user_Actions = []\<rparr>)"

text \<open>
  \<open>PayloadFunc\<close> gets the user \<open>Authenticator\<close> returned: the \<open>2fa\<close> claim says whether
  the user has a secret.
\<close>

definition PayloadFunc :: "Configuration \<Rightarrow> filesystem \<Rightarrow> UserAuthorizations \<Rightarrow> MapClaims" where
  "PayloadFunc cfg fs user =
     (let required = (GetUserSecret cfg fs (user_Username user) \<noteq> [])
      in map_of [(''id'', JString (user_Username user)), (''role'', JString []),
                 (''actions'', JOther), (''2fa'', JBool required)])"

text \<open>
  \<open>Authorizator\<close> gets the claims and the parsed token of the request from the
  middleware; \<open>token\<close> is nil when the middleware could not parse one, and \<open>token.Raw\<close>
  panics then. What follows the allow-list check reads the request body and writes a log
  line with the sensitive fields masked; it touches no file and always ends in
  \<open>return true\<close>.
\<close>

definition Authorizator ::
  "Configuration \<Rightarrow> filesystem \<Rightarrow> MapClaims \<Rightarrow> jwt_Token option \<Rightarrow> panic + bool" where
  "Authorizator cfg fs claims token =
     (case index claims ''id'' of
        JString username \<Rightarrow>
          (case token of
             None \<Rightarrow> Inl Panic
           | Some tk \<Rightarrow>
               if \<not> CheckTokenValidation cfg fs username (Raw tk) then Inr False
               else Inr True)
      | _ \<Rightarrow> Inl Panic)"

text \<open>
  \<open>LoginResponse\<close> admits a fresh token to the allow-list when its \<open>2fa\<close> claim is false;
  the claim is asserted to be a bool before the id is asserted to be a string.
\<close>

definition LoginResponse ::
  "Configuration \<Rightarrow> filesystem \<Rightarrow> MapClaims \<Rightarrow> string \<Rightarrow> filesystem \<times> response" where
  "LoginResponse cfg fs claims token =
     (case index claims ''2fa'' of
        JBool required \<Rightarrow>
          (case index claims ''id'' of
             JString username \<Rightarrow>
               let fs1 = (if \<not> required then fst (SetTokenValidation cfg fs username token) else fs)
               in (fs1, JSON 200 200 [] (DataString token))
           | _ \<Rightarrow> (fs, Panicked))
      | _ \<Rightarrow> (fs, Panicked))"

text \<open>The \<open>Unauthorized\<close> callback of the middleware.\<close>

definition Unauthorized :: "nat \<Rightarrow> string \<Rightarrow> response" where
  "Unauthorized code message = JSON code code message DataNil"

text \<open>
  What \<open>LoginHandler\<close> of gin-jwt, which serves \<open>POST /login\<close>, takes from its own code:
  \<open>signedString\<close> signs the claims with the server's key (\<open>None\<close> when signing fails) and
  \<open>HTTPStatusMessage\<close> is the text of an error.
\<close>

record gin_jwt =
  signedString :: "MapClaims \<Rightarrow> string option"
  HTTPStatusMessage :: "gin_jwt_error \<Rightarrow> string"

text \<open>
  \<open>LoginHandler\<close> calls the callbacks of \<open>InitJWT\<close> in turn: \<open>Authenticator\<close>, whose
  error is answered with 401 through \<open>Unauthorized\<close>; \<open>PayloadFunc\<close>, to whose claims it
  adds the expiry \<open>exp\<close> and the issue time \<open>orig_iat\<close>; the signing of the claims; and
  \<open>LoginResponse\<close> with the signed token. \<open>LoginResponse\<close> reads the claims back from the
  token string, and a token the middleware has just signed parses to the claims it signed.
\<close>

definition LoginHandler ::
  "gin_jwt \<Rightarrow> Configuration \<Rightarrow> filesystem \<Rightarrow> login option \<Rightarrow> filesystem \<times> response" where
  "LoginHandler mw cfg fs body =
     (case Authenticator body of
        Inl err \<Rightarrow> (fs, Unauthorized 401 (HTTPStatusMessage mw err))
      | Inr data \<Rightarrow>
          let claims = (PayloadFunc cfg fs data)(''exp'' \<mapsto> JOther, ''orig_iat'' \<mapsto> JOther)
          in case signedString mw claims of
               None \<Rightarrow> (fs, Unauthorized 401 (HTTPStatusMessage mw ErrFailedTokenCreation))
             | Some tokenString \<Rightarrow> LoginResponse cfg fs claims tokenString)"

section \<open>Notions used in the properties\<close>

subsection \<open>The entries of an allow-list file\<close>

text \<open>
  \<open>SetTokenValidation\<close> writes one token to a line. The entries of a file are the pieces
  between its newlines, \<open>strings.Split(s, "\n")\<close>; \<open>joinLines\<close> puts them together
  again, and \<open>blankFirst t\<close> empties the first entry that is \<open>t\<close>.
\<close>

primrec entries :: "string \<Rightarrow> string list" where
  "entries [] = [[]]"
| "entries (c # s) =
     (case entries s of
        [] \<Rightarrow> [[c]]
      | l # ls \<Rightarrow> if c = CHR 0x0A then [] # l # ls else (c # l) # ls)"

fun joinLines :: "string list \<Rightarrow> string" where
  "joinLines [] = []"
| "joinLines [p] = p"
| "joinLines (p # q # ps) = p @ CHR 0x0A # joinLines (q # ps)"

fun blankFirst :: "string \<Rightarrow> string list \<Rightarrow> string list" where
  "blankFirst t [] = []"
| "blankFirst t (p # ps) = (if p = t then [] # ps else p # blankFirst t ps)"

text \<open>\<open>cutFirst t\<close> cuts \<open>t\<close> out of the first entry that holds it.\<close>

fun cutFirst :: "string \<Rightarrow> string list \<Rightarrow> string list" where
  "cutFirst t [] = []"
| "cutFirst t (p # ps) = (if sublist t p then ReplaceFirst p t [] # ps else p # cutFirst t ps)"

text \<open>The entries stored for a user: none when the file cannot be read.\<close>

definition stored :: "Configuration \<Rightarrow> filesystem \<Rightarrow> string \<Rightarrow> string list" where
  "stored cfg fs username =
     (case ReadFile fs (tokensFile cfg username) of
        Inl err \<Rightarrow> []
      | Inr secrestList \<Rightarrow> entries secrestList)"

text \<open>Two calls of \<open>SetTokenValidation\<close> with one token, then one call of \<open>RemoveTokenValidation\<close>.\<close>

definition add_twice_remove_once ::
  "Configuration \<Rightarrow> filesystem \<Rightarrow> string \<Rightarrow> string \<Rightarrow> filesystem" where
  "add_twice_remove_once cfg fs username token =
     (let fs1 = fst (SetTokenValidation cfg fs username token);
          fs2 = fst (SetTokenValidation cfg fs1 username token)
      in fst (RemoveTokenValidation cfg fs2 username token))"

subsection \<open>The steps of \<open>OTPVerify\<close>\<close>

text \<open>The status \<open>OTPVerify\<close> reads before it enables 2FA: the empty string when the file cannot be read.\<close>

definition statusOld :: "Configuration \<Rightarrow> filesystem \<Rightarrow> string \<Rightarrow> string" where
  "statusOld cfg fs username =
     TrimSpace (case ReadFile fs (statusFile cfg username) of Inl err \<Rightarrow> [] | Inr b \<Rightarrow> b)"

text \<open>What \<open>OTPVerify\<close> does once token, secret and one-time password have been accepted.\<close>

definition enable2FA :: "Configuration \<Rightarrow> filesystem \<Rightarrow> string \<Rightarrow> string \<Rightarrow> filesystem \<times> response" where
  "enable2FA cfg fs username token =
     (let (fs2, errClean) =
            (if statusOld cfg fs username = ''0'' \<or> statusOld cfg fs username = [] then
               let (fs1, f) = OpenFile fs (tokensFile cfg username) [O_RDWR, O_CREATE, O_TRUNC]
               in WriteString fs1 f []
             else (fs, None))
      in
      if errClean \<noteq> None then (fs2, JSON 400 400 ''Clean previous tokens error'' DataErr)
      else
        let (fs3, set) = SetTokenValidation cfg fs2 username token in
        if \<not> set then (fs3, JSON 400 400 ''Token validation set error'' (DataString []))
        else
          let (fs4, f) = OpenFile fs3 (statusFile cfg username) [O_RDWR, O_CREATE, O_TRUNC];
              (fs5, err) = WriteString fs4 f ''1''
          in
          if err \<noteq> None then (fs5, JSON 400 400 ''Status set error'' DataErr)
          else (fs5, JSON 200 200 ''OTP verified'' (DataString token)))"

subsection \<open>The claims of a login\<close>

text \<open>The claims \<open>LoginHandler\<close> signs for a user name.\<close>

definition loginClaims :: "Configuration \<Rightarrow> filesystem \<Rightarrow> string \<Rightarrow> MapClaims" where
  "loginClaims cfg fs username =
     (PayloadFunc cfg fs \<lparr>user_Username = username, user_Role = [], user_Actions = []\<rparr>)
       (''exp'' \<mapsto> JOther, ''orig_iat'' \<mapsto> JOther)"

subsection \<open>Sample configuration, files and libraries\<close>

definition demo_cfg :: Configuration where
  "demo_cfg = \<lparr>ListenAddress = ''127.0.0.1:8080'', SecretJWT = ''key'', Issuer2FA = ''NethServer'',
     SecretsDir = ''/s'', TokensDir = ''/t'', StaticDir = ''/var/run/ns-api-server''\<rparr>"

text \<open>A file system with the given files on which no call fails.\<close>

definition demo_fs :: "(path \<times> string) list \<Rightarrow> filesystem" where
  "demo_fs fl = \<lparr>files = map_of fl, dirs = {}, read_fails = {}, open_fails = {},
     write_fails = {}, remove_fails = {}\<rparr>"

definition demo_claims :: "bool \<Rightarrow> MapClaims" where
  "demo_claims required = map_of [(''id'', JString ''alice''), (''2fa'', JBool required)]"

definition demo_token :: "string \<Rightarrow> SigningMethod \<Rightarrow> bool \<Rightarrow> jwt_Token" where
  "demo_token raw m required = \<lparr>Raw = raw, Method = m, Claims = demo_claims required, Valid = False\<rparr>"

text \<open>
  A library for the samples: a token string \<open>n...\<close> decodes to a token of \<open>alg = none\<close>,
  \<open>r...\<close> to an RSA token, every other string to an HS256 token; every decoded token
  verifies, and the one-time password of the moment is \<open>123456\<close>.
\<close>

definition demo_lib :: library where
  "demo_lib = \<lparr>
     jwt_decode = (\<lambda>s. if prefix ''n'' s then Some (demo_token s SigningMethodNone False)
                        else if prefix ''r'' s then Some (demo_token s (SigningMethodOther ''RS256'') False)
                        else Some (demo_token s (SigningMethodHMAC ''HS256'') False)),
     jwt_verify = (\<lambda>token key. True),
     otp_Authenticate = (\<lambda>otpc password. (password = ''123456'', None))\<rparr>"

text \<open>A login with a password that belongs to nobody.\<close>

definition demo_login :: login where
  "demo_login = \<lparr>login_Username = ''mallory'', login_Password = ''wrong''\<rparr>"

text \<open>A middleware that signs every set of claims to the one token string \<open>signed.token\<close>.\<close>

definition demo_mw :: gin_jwt where
  "demo_mw = \<lparr>signedString = (\<lambda>claims. Some ''signed.token''),
     HTTPStatusMessage = (\<lambda>err. ''login failed'')\<rparr>"

text \<open>A file system with the given files on which opening and removing the one path \<open>p\<close> fails.\<close>

definition demo_faulty :: "(path \<times> string) list \<Rightarrow> path \<Rightarrow> filesystem" where
  "demo_faulty fl p = \<lparr>files = map_of fl, dirs = {}, read_fails = {}, open_fails = {p},
     write_fails = {}, remove_fails = {p}\<rparr>"

text \<open>A file system with the given files on which writing to the one path \<open>p\<close> fails.\<close>

definition demo_unwritable :: "(path \<times> string) list \<Rightarrow> path \<Rightarrow> filesystem" where
  "demo_unwritable fl p = \<lparr>files = map_of fl, dirs = {}, read_fails = {}, open_fails = {},
     write_fails = {p}, remove_fails = {}\<rparr>"

text \<open>The body of a verification request of alice with the one-time password of \<open>demo_lib\<close>.\<close>

definition demo_otp :: "string \<Rightarrow> OTPJson" where
  "demo_otp token = \<lparr>Username = ''alice'', Token = token, OTP = ''123456''\<rparr>"

section \<open>Facts about the string functions\<close>

lemma Contains_sublist: "Contains s t = sublist t s"
  by (induction s) (auto simp: sublist_Cons_right)

lemma prefix_sep: 
  assumes "c \<notin> set t" and "prefix t (a @ c # b)" shows "prefix t a"
proof -
  from assms(2) have "prefix t a \<or> (\<exists>us. t = a @ us \<and> prefix us (c # b))"
    by (simp add: prefix_append)
  then show ?thesis
  proof
    assume "\<exists>us. t = a @ us \<and> prefix us (c # b)"
    then obtain us where t: "t = a @ us" and us: "prefix us (c # b)" by blast
    from t assms(1) have "c \<notin> set us" by simp
    with us have "us = []" by (cases us) auto
    with t show ?thesis by simp
  qed
qed

lemma sublist_sep:
  assumes "c \<notin> set t" and "sublist t (a @ c # b)"
  shows "sublist t a \<or> sublist t b"
  using assms
proof (induction a)
  case Nil
  then have "prefix t (c # b) \<or> sublist t b" by (simp add: sublist_Cons_right)
  moreover have "prefix t (c # b) \<Longrightarrow> t = []" using Nil.prems(1) by (cases t) auto
  ultimately show ?case by auto
next
  case (Cons x a)
  from Cons.prems(2) have "prefix t (x # a @ c # b) \<or> sublist t (a @ c # b)"
    by (simp add: sublist_Cons_right)
  then show ?case
  proof
    assume "prefix t (x # a @ c # b)"
    then have "prefix t ((x # a) @ c # b)" by simp
    with Cons.prems(1) have "prefix t (x # a)" by (rule prefix_sep)
    then show ?thesis by blast
  next
    assume "sublist t (a @ c # b)"
    then have "sublist t a \<or> sublist t b" using Cons by blast
    then show ?thesis by (auto simp: sublist_Cons_right)
  qed
qed

lemma ReplaceFirst_prefix: "prefix old s \<Longrightarrow> ReplaceFirst s old new = new @ drop (length old) s"
  by (cases s) simp_all

lemma ReplaceFirst_none: "\<not> sublist old s \<Longrightarrow> ReplaceFirst s old new = s"
  by (induction s) (simp_all add: sublist_Cons_right)

lemma ReplaceFirst_skip:
  "c \<notin> set t \<Longrightarrow> t \<noteq> [] \<Longrightarrow> \<not> sublist t p \<Longrightarrow>
   ReplaceFirst (p @ c # r) t new = p @ c # ReplaceFirst r t new"
proof (induction p)
  case Nil
  then have "\<not> prefix t (c # r)" by (cases t) auto
  then show ?case by simp
next
  case (Cons x p)
  have nx: "\<not> prefix t (x # p)" and ns: "\<not> sublist t p"
    using Cons.prems(3) by (simp_all add: sublist_Cons_right)
  have "\<not> prefix t ((x # p) @ c # r)"
  proof
    assume "prefix t ((x # p) @ c # r)"
    with Cons.prems(1) have "prefix t (x # p)" by (rule prefix_sep)
    with nx show False ..
  qed
  then have "ReplaceFirst ((x # p) @ c # r) t new = x # ReplaceFirst (p @ c # r) t new"
    by simp
  also have "ReplaceFirst (p @ c # r) t new = p @ c # ReplaceFirst r t new"
    using Cons.prems(1,2) ns by (rule Cons.IH)
  finally show ?case by simp
qed

lemma ReplaceFirst_keeps_tail: "\<exists>a'. ReplaceFirst (a @ t @ b) t new = a' @ b"
proof (induction a)
  case Nil
  show ?case by (simp add: ReplaceFirst_prefix)
next
  case (Cons c a)
  show ?case
  proof (cases "prefix t (c # a @ t @ b)")
    case True
    have "length t \<le> length (c # a @ t)" by simp
    then have "drop (length t) ((c # a @ t) @ b) = drop (length t) (c # a @ t) @ b"
      by (simp only: drop_append) simp
    with True show ?thesis by (simp add: ReplaceFirst_prefix)
  next
    case False
    with Cons show ?thesis by auto
  qed
qed

lemma entries_nonempty: "entries s \<noteq> []"
  by (induction s) (simp_all split: list.splits)

lemma join_entries: "joinLines (entries s) = s"
proof (induction s)
  case Nil
  show ?case by simp
next
  case (Cons c s)
  obtain l ls where e: "entries s = l # ls"
    using entries_nonempty[of s] by (cases "entries s") auto
  with Cons show ?case by (cases ls) auto
qed

lemma entries_no_newline: "p \<in> set (entries s) \<Longrightarrow> CHR 0x0A \<notin> set p"
proof (induction s arbitrary: p)
  case Nil
  then show ?case by simp
next
  case (Cons c s)
  obtain l ls where e: "entries s = l # ls"
    using entries_nonempty[of s] by (cases "entries s") auto
  show ?case
  proof (cases "c = CHR 0x0A")
    case True
    with e Cons.prems have "p = [] \<or> p \<in> set (entries s)" by auto
    with Cons.IH show ?thesis by auto
  next
    case False
    with e Cons.prems have "p = c # l \<or> p \<in> set ls" by auto
    moreover have "CHR 0x0A \<notin> set l" using Cons.IH[of l] e by simp
    moreover have "p \<in> set ls \<Longrightarrow> CHR 0x0A \<notin> set p" using Cons.IH[of p] e by simp
    ultimately show ?thesis using False by auto
  qed
qed

lemma sublist_joinLines:
  assumes "CHR 0x0A \<notin> set t" and "t \<noteq> []" and "sublist t (joinLines ps)"
  shows "\<exists>p\<in>set ps. sublist t p"
  using assms(3)
proof (induction ps rule: joinLines.induct)
  case 1
  with assms(2) show ?case by simp
next
  case (2 p)
  then show ?case by simp
next
  case (3 p q ps)
  then have "sublist t (p @ CHR 0x0A # joinLines (q # ps))" by simp
  with assms(1) have "sublist t p \<or> sublist t (joinLines (q # ps))" by (rule sublist_sep)
  then show ?case
  proof
    assume "sublist t p" then show ?thesis by simp
  next
    assume "sublist t (joinLines (q # ps))"
    then have "\<exists>p\<in>set (q # ps). sublist t p" by (rule "3.IH")
    then show ?thesis by auto
  qed
qed

lemma mem_sublist_joinLines: "p \<in> set ps \<Longrightarrow> sublist p (joinLines ps)"
proof (induction ps rule: joinLines.induct)
  case 1
  then show ?case by simp
next
  case (2 q)
  then show ?case by simp
next
  case (3 a q ps)
  show ?case
  proof (cases "p = a")
    case True
    then show ?thesis by simp
  next
    case False
    with "3.prems" have "p \<in> set (q # ps)" by simp
    then have "sublist p (joinLines (q # ps))" by (rule "3.IH")
    then have "sublist p (a @ CHR 0x0A # joinLines (q # ps))"
      by (metis sublist_append sublist_Cons_right)
    then show ?thesis by simp
  qed
qed

lemma ReplaceFirst_joinLines:
  assumes "CHR 0x0A \<notin> set t" and "t \<noteq> []"
    and "\<forall>p\<in>set ps. sublist t p \<longrightarrow> p = t"
  shows "ReplaceFirst (joinLines ps) t [] = joinLines (blankFirst t ps)"
  using assms(3)
proof (induction ps rule: joinLines.induct)
  case 1
  with assms(2) show ?case by simp
next
  case (2 p)
  show ?case
  proof (cases "p = t")
    case True
    then show ?thesis by (simp add: ReplaceFirst_prefix)
  next
    case False
    with 2 have "\<not> sublist t p" by simp
    then have "ReplaceFirst p t [] = p" by (rule ReplaceFirst_none)
    with False show ?thesis by simp
  qed
next
  case (3 p q ps)
  show ?case
  proof (cases "p = t")
    case True
    have "prefix t (joinLines (p # q # ps))" using True by simp
    then have "ReplaceFirst (joinLines (p # q # ps)) t [] = [] @ drop (length t) (joinLines (p # q # ps))"
      by (rule ReplaceFirst_prefix)
    with True show ?thesis by simp
  next
    case False
    with "3.prems" have ns: "\<not> sublist t p" by simp
    from "3.prems" have "\<forall>p\<in>set (q # ps). sublist t p \<longrightarrow> p = t" by simp
    then have ih: "ReplaceFirst (joinLines (q # ps)) t [] = joinLines (blankFirst t (q # ps))"
      by (rule "3.IH")
    have "ReplaceFirst (p @ CHR 0x0A # joinLines (q # ps)) t [] =
          p @ CHR 0x0A # ReplaceFirst (joinLines (q # ps)) t []"
      using assms(1,2) ns by (rule ReplaceFirst_skip)
    with ih False show ?thesis by (cases "q = t") simp_all
  qed
qed

lemma blankFirst_drops:
  "count_list ps t \<le> 1 \<Longrightarrow> t \<noteq> [] \<Longrightarrow> t \<notin> set (blankFirst t ps)"
proof (induction ps)
  case Nil
  then show ?case by simp
next
  case (Cons p ps)
  show ?case
  proof (cases "p = t")
    case True
    with Cons.prems have "count_list ps t = 0" by simp
    then have "t \<notin> set ps" by (simp add: count_list_0_iff)
    with True Cons.prems show ?thesis by auto
  next
    case False
    with Cons show ?thesis by simp
  qed
qed

lemma blankFirst_subset: "set (blankFirst t ps) \<subseteq> insert [] (set ps)"
  by (induction ps) auto

lemma find_spaceRune_prefix:
  assumes "find (\<lambda>r. prefix r s) spaceRunes = Some r"
  shows "r \<in> set spaceRunes" and "prefix r s"
  using assms by (auto simp: find_Some_iff)

lemma find_spaceRune_suffix:
  assumes "find (\<lambda>r. suffix r s) spaceRunes = Some r"
  shows "r \<in> set spaceRunes" and "suffix r s"
  using assms by (auto simp: find_Some_iff)

lemma TrimLeft_suffix: "suffix (TrimLeft s) s"
proof (induction s rule: TrimLeft.induct)
  case (1 s)
  show ?case
  proof (cases "find (\<lambda>r. prefix r s) spaceRunes")
    case None
    then have "TrimLeft s = s" by (subst TrimLeft.simps) simp
    then show ?thesis by simp
  next
    case (Some r)
    then have eq: "TrimLeft s = TrimLeft (drop (length r) s)" by (subst TrimLeft.simps) simp
    from Some have "suffix (TrimLeft (drop (length r) s)) (drop (length r) s)" by (rule "1.IH")
    moreover have "suffix (drop (length r) s) s" by (rule suffix_drop)
    ultimately show ?thesis unfolding eq by (rule suffix_order.trans)
  qed
qed

lemma TrimRight_prefix: "prefix (TrimRight s) s"
proof (induction s rule: TrimRight.induct)
  case (1 s)
  show ?case
  proof (cases "find (\<lambda>r. suffix r s) spaceRunes")
    case None
    then have "TrimRight s = s" by (subst TrimRight.simps) simp
    then show ?thesis by simp
  next
    case (Some r)
    then have eq: "TrimRight s = TrimRight (take (length s - length r) s)"
      by (subst TrimRight.simps) simp
    from Some have "prefix (TrimRight (take (length s - length r) s)) (take (length s - length r) s)"
      by (rule "1.IH")
    moreover have "prefix (take (length s - length r) s) s" by (rule take_is_prefix)
    ultimately show ?thesis unfolding eq by (rule prefix_order.trans)
  qed
qed

lemma TrimSpace_sublist: "sublist (TrimSpace s) s"
proof -
  have "sublist (TrimRight (TrimLeft s)) (TrimLeft s)"
    using TrimRight_prefix by (rule prefix_imp_sublist)
  moreover have "sublist (TrimLeft s) s"
    using TrimLeft_suffix by (rule suffix_imp_sublist)
  ultimately show ?thesis unfolding TrimSpace_def by (rule sublist_order.order.trans)
qed

lemma TrimLeft_keeps:
  assumes "t \<noteq> []" and "solid (hd t)"
  shows "\<exists>p'. TrimLeft (p @ t @ q) = p' @ t @ q"
proof (induction "p @ t @ q" arbitrary: p rule: TrimLeft.induct)
  case 1
  show ?case
  proof (cases "find (\<lambda>r. prefix r (p @ t @ q)) spaceRunes")
    case None
    then have "TrimLeft (p @ t @ q) = p @ t @ q" by (subst TrimLeft.simps) simp
    then show ?thesis by blast
  next
    case (Some r)
    then have eq: "TrimLeft (p @ t @ q) = TrimLeft (drop (length r) (p @ t @ q))"
      by (subst TrimLeft.simps) simp
    from Some have r: "r \<in> set spaceRunes" and pr: "prefix r (p @ t @ q)"
      by (rule find_spaceRune_prefix)+
    from pr have "prefix r p \<or> (\<exists>us. r = p @ us \<and> prefix us (t @ q))"
      by (simp add: prefix_append)
    then have "prefix r p"
    proof
      assume "\<exists>us. r = p @ us \<and> prefix us (t @ q)"
      then obtain us where rp: "r = p @ us" and us: "prefix us (t @ q)" by blast
      have "us = []"
      proof (rule ccontr)
        assume "us \<noteq> []"
        with us assms(1) have "hd us = hd t" by (cases us; cases t) auto
        with \<open>us \<noteq> []\<close> rp have "hd t \<in> set r" by (cases us) auto
        with r have "\<not> solid (hd t)" by (rule spaceRunes_not_solid)
        with assms(2) show False by simp
      qed
      with rp show "prefix r p" by simp
    qed
    then obtain p2 where p: "p = r @ p2" by (auto simp: prefix_def)
    then have d: "drop (length r) (p @ t @ q) = p2 @ t @ q" by simp
    from Some d have "\<exists>p'. TrimLeft (p2 @ t @ q) = p' @ t @ q"
      using "1.hyps"[of r p2] by simp
    with eq d show ?thesis by simp
  qed
qed

lemma TrimRight_keeps:
  assumes "t \<noteq> []" and "solid (last t)"
  shows "\<exists>q'. TrimRight (p @ t @ q) = p @ t @ q'"
proof (induction "p @ t @ q" arbitrary: q rule: TrimRight.induct)
  case 1
  show ?case
  proof (cases "find (\<lambda>r. suffix r (p @ t @ q)) spaceRunes")
    case None
    then have "TrimRight (p @ t @ q) = p @ t @ q" by (subst TrimRight.simps) simp
    then show ?thesis by blast
  next
    case (Some r)
    then have eq: "TrimRight (p @ t @ q) =
        TrimRight (take (length (p @ t @ q) - length r) (p @ t @ q))"
      by (subst TrimRight.simps) simp
    from Some have r: "r \<in> set spaceRunes" and sr: "suffix r (p @ t @ q)"
      by (rule find_spaceRune_suffix)+
    from sr have "suffix r ((p @ t) @ q)" by simp
    then have "suffix r q \<or> (\<exists>xs'. r = xs' @ q \<and> suffix xs' (p @ t))"
      by (rule iffD1[OF suffix_append])
    then have "suffix r q"
    proof
      assume "\<exists>xs'. r = xs' @ q \<and> suffix xs' (p @ t)"
      then obtain xs where xs: "suffix xs (p @ t)" and rq: "r = xs @ q" by blast
      have "xs = []"
      proof (rule ccontr)
        assume ne: "xs \<noteq> []"
        from xs obtain ys where "p @ t = ys @ xs" by (auto simp: suffix_def)
        then have "last (p @ t) = last (ys @ xs)" by simp
        with ne assms(1) have "last xs = last t" by simp
        with ne rq have "last t \<in> set r" using last_in_set[of xs] by auto
        with r have "\<not> solid (last t)" by (rule spaceRunes_not_solid)
        with assms(2) show False by simp
      qed
      with rq show "suffix r q" by simp
    qed
    then obtain q2 where q: "q = q2 @ r" by (auto simp: suffix_def)
    then have d: "take (length (p @ t @ q) - length r) (p @ t @ q) = p @ t @ q2" by simp
    from Some d have "\<exists>q'. TrimRight (p @ t @ q2) = p @ t @ q'"
      using "1.hyps"[of r q2] by simp
    with eq d show ?thesis by simp
  qed
qed

lemma TrimSpace_keeps:
  assumes "t \<noteq> []" and "solid (hd t)" and "solid (last t)" and "sublist t s"
  shows "sublist t (TrimSpace s)"
proof -
  from assms(4) obtain p q where s: "s = p @ t @ q" by (auto simp: sublist_def)
  from assms(1,2) obtain p' where l: "TrimLeft (p @ t @ q) = p' @ t @ q"
    using TrimLeft_keeps by blast
  from assms(1,3) obtain q' where "TrimRight (p' @ t @ q) = p' @ t @ q'"
    using TrimRight_keeps by blast
  with s l show ?thesis by (simp add: TrimSpace_def)
qed

lemma Contains_joinLines:
  assumes "CHR 0x0A \<notin> set t" and "t \<noteq> []"
  shows "Contains s t \<longleftrightarrow> (\<exists>e\<in>set (entries s). sublist t e)"
proof
  assume "Contains s t"
  then have "sublist t (joinLines (entries s))" by (simp add: Contains_sublist join_entries)
  with assms show "\<exists>e\<in>set (entries s). sublist t e" by (rule sublist_joinLines)
next
  assume "\<exists>e\<in>set (entries s). sublist t e"
  then obtain e where e: "e \<in> set (entries s)" and te: "sublist t e" by blast
  from e have "sublist e (joinLines (entries s))" by (rule mem_sublist_joinLines)
  with te have "sublist t (joinLines (entries s))" by (rule sublist_order.order.trans)
  then show "Contains s t" by (simp add: Contains_sublist join_entries)
qed

lemma TrimSpace_Nil: "TrimSpace [] = []"
  by (simp add: TrimSpace_def TrimLeft.simps TrimRight.simps spaceRunes_def)

lemma TrimSpace_solid:
  assumes "s \<noteq> []" and "solid (hd s)" and "solid (last s)"
  shows "TrimSpace s = s"
proof -
  from assms(1,2) obtain p' where l: "TrimLeft ([] @ s @ []) = p' @ s @ []"
    using TrimLeft_keeps by blast
  have "length (TrimLeft s) \<le> length s"
    using TrimLeft_suffix by (rule suffix_length_le)
  with l have tl: "TrimLeft s = s" by simp
  from assms(1,3) obtain q' where r: "TrimRight ([] @ s @ []) = [] @ s @ q'"
    using TrimRight_keeps by blast
  have "length (TrimRight s) \<le> length s"
    using TrimRight_prefix by (rule prefix_length_le)
  with r have "TrimRight s = s" by simp
  with tl show ?thesis by (simp add: TrimSpace_def)
qed

lemma solid_digits: "solid CHR ''0''" "solid CHR ''1''"
  by (simp_all add: solid_def spaceRunes_def)

lemma secret_status_distinct: "secretFile cfg u \<noteq> statusFile cfg u"
  by (simp add: secretFile_def statusFile_def)

lemma prefix_append_long:
  assumes "length t \<le> length p"
  shows "prefix t (p @ r) \<longleftrightarrow> prefix t p"
proof
  assume "prefix t (p @ r)"
  then have "prefix t p \<or> (\<exists>us. t = p @ us \<and> prefix us r)" by (simp add: prefix_append)
  then show "prefix t p"
  proof
    assume "\<exists>us. t = p @ us \<and> prefix us r"
    then obtain us where t: "t = p @ us" by blast
    with assms have "us = []" by simp
    with t show ?thesis by simp
  qed
next
  assume "prefix t p"
  then show "prefix t (p @ r)" by (rule prefix_prefix)
qed

lemma ReplaceFirst_inside:
  assumes "sublist t p"
  shows "ReplaceFirst (p @ r) t new = ReplaceFirst p t new @ r"
  using assms
proof (induction p)
  case Nil
  then have "t = []" by simp
  then show ?case by (cases r) simp_all
next
  case (Cons c p)
  from Cons.prems have len: "length t \<le> length (c # p)" by (rule sublist_length_le)
  then have pe: "prefix t ((c # p) @ r) \<longleftrightarrow> prefix t (c # p)" by (rule prefix_append_long)
  show ?case
  proof (cases "prefix t (c # p)")
    case True
    with pe have "prefix t ((c # p) @ r)" by simp
    then have "ReplaceFirst ((c # p) @ r) t new = new @ drop (length t) ((c # p) @ r)"
      by (rule ReplaceFirst_prefix)
    also have "drop (length t) ((c # p) @ r) = drop (length t) (c # p) @ r"
      using len by (simp only: drop_append) simp
    also have "new @ drop (length t) (c # p) @ r = (new @ drop (length t) (c # p)) @ r" by simp
    also have "new @ drop (length t) (c # p) = ReplaceFirst (c # p) t new"
      using True by (rule ReplaceFirst_prefix [symmetric])
    finally show ?thesis .
  next
    case False
    with pe have np: "\<not> prefix t (c # p @ r)" by simp
    from False Cons.prems have "sublist t p" by (simp add: sublist_Cons_right)
    then have "ReplaceFirst (p @ r) t new = ReplaceFirst p t new @ r" by (rule Cons.IH)
    with False np show ?thesis by simp
  qed
qed

lemma ReplaceFirst_cutFirst:
  assumes "CHR 0x0A \<notin> set t" and "t \<noteq> []"
  shows "ReplaceFirst (joinLines ps) t [] = joinLines (cutFirst t ps)"
proof (induction ps rule: joinLines.induct)
  case 1
  from assms(2) show ?case by simp
next
  case (2 p)
  show ?case
  proof (cases "sublist t p")
    case True
    then show ?thesis by simp
  next
    case False
    then have "ReplaceFirst p t [] = p" by (rule ReplaceFirst_none)
    with False show ?thesis by simp
  qed
next
  case (3 p q ps)
  show ?case
  proof (cases "sublist t p")
    case True
    then have "ReplaceFirst (p @ CHR 0x0A # joinLines (q # ps)) t [] =
        ReplaceFirst p t [] @ CHR 0x0A # joinLines (q # ps)" by (rule ReplaceFirst_inside)
    with True show ?thesis by simp
  next
    case False
    with assms have "ReplaceFirst (p @ CHR 0x0A # joinLines (q # ps)) t [] =
          p @ CHR 0x0A # ReplaceFirst (joinLines (q # ps)) t []"
      by (rule ReplaceFirst_skip)
    with False "3.IH" show ?thesis by (cases "sublist t q") simp_all
  qed
qed

lemma cutFirst_keeps: "q \<in> set ps \<Longrightarrow> \<not> sublist t q \<Longrightarrow> q \<in> set (cutFirst t ps)"
  by (induction ps) auto

section \<open>Facts about the allow-list operations\<close>

lemma solid_letters: "solid CHR ''a''" "solid CHR ''b''" "solid CHR ''c''" "solid CHR ''t''" "solid CHR ''k''"
  by (simp_all add: solid_def spaceRunes_def)

lemma solid_more: "solid CHR ''x''" "solid CHR ''z''"
  by (simp_all add: solid_def spaceRunes_def)

lemma removed_not_contained:
  assumes "t \<noteq> []" and "CHR 0x0A \<notin> set t" and "count_list (entries c) t \<le> 1"
    and "\<forall>e\<in>set (entries c). sublist t e \<longrightarrow> e = t"
  shows "\<not> Contains (TrimSpace (ReplaceFirst c t []) @ ''\<newline>'') t"
proof
  assume "Contains (TrimSpace (ReplaceFirst c t []) @ ''\<newline>'') t"
  then have "sublist t (TrimSpace (ReplaceFirst c t []) @ CHR 0x0A # [])"
    by (simp add: Contains_sublist)
  with assms(2) have "sublist t (TrimSpace (ReplaceFirst c t [])) \<or> sublist t []"
    by (rule sublist_sep)
  with assms(1) have "sublist t (TrimSpace (ReplaceFirst c t []))" by simp
  then have "sublist t (ReplaceFirst c t [])"
    using TrimSpace_sublist by (rule sublist_order.order.trans)
  moreover have "ReplaceFirst (joinLines (entries c)) t [] = joinLines (blankFirst t (entries c))"
    using assms(2,1,4) by (rule ReplaceFirst_joinLines)
  ultimately have "sublist t (joinLines (blankFirst t (entries c)))"
    by (simp add: join_entries)
  with assms(2,1) have "\<exists>e\<in>set (blankFirst t (entries c)). sublist t e"
    by (rule sublist_joinLines)
  then obtain e where e: "e \<in> set (blankFirst t (entries c))" and te: "sublist t e" by blast
  from te assms(1) have "e \<noteq> []" by auto
  with e blankFirst_subset[of t "entries c"] have "e \<in> set (entries c)" by auto
  with te assms(4) have "e = t" by blast
  with e have "t \<in> set (blankFirst t (entries c))" by simp
  moreover from assms(3,1) have "t \<notin> set (blankFirst t (entries c))" by (rule blankFirst_drops)
  ultimately show False by simp
qed

lemma unrelated_still_contained:
  assumes "CHR 0x0A \<notin> set t1"
    and "t2 \<in> set (entries c)" and "\<not> sublist t1 t2"
    and "t2 \<noteq> []" and "solid (hd t2)" and "solid (last t2)"
  shows "Contains (TrimSpace (ReplaceFirst c t1 []) @ ''\<newline>'') t2"
proof -
  from assms(3) have ne: "t1 \<noteq> []" by auto
  have "ReplaceFirst (joinLines (entries c)) t1 [] = joinLines (cutFirst t1 (entries c))"
    using assms(1) ne by (rule ReplaceFirst_cutFirst)
  then have x: "ReplaceFirst c t1 [] = joinLines (cutFirst t1 (entries c))"
    by (simp add: join_entries)
  from assms(2,3) have "t2 \<in> set (cutFirst t1 (entries c))" by (rule cutFirst_keeps)
  then have "sublist t2 (joinLines (cutFirst t1 (entries c)))" by (rule mem_sublist_joinLines)
  with x have "sublist t2 (ReplaceFirst c t1 [])" by simp
  with assms(4,5,6) have "sublist t2 (TrimSpace (ReplaceFirst c t1 []))" by (rule TrimSpace_keeps)
  then obtain ps ss where "TrimSpace (ReplaceFirst c t1 []) = ps @ t2 @ ss"
    by (auto simp: sublist_def)
  then have "TrimSpace (ReplaceFirst c t1 []) @ ''\<newline>'' = ps @ t2 @ (ss @ ''\<newline>'')" by simp
  then have "sublist t2 (TrimSpace (ReplaceFirst c t1 []) @ ''\<newline>'')"
    unfolding sublist_def by blast
  then show ?thesis by (simp add: Contains_sublist)
qed

lemma SetTokenValidation_appends:
  assumes "tokensFile cfg u \<notin> open_fails fs" and "tokensFile cfg u \<notin> write_fails fs"
  shows "SetTokenValidation cfg fs u t =
         (fs\<lparr>files := (files fs)(tokensFile cfg u \<mapsto>
              (case files fs (tokensFile cfg u) of None \<Rightarrow> [] | Some c \<Rightarrow> c) @ t @ ''\<newline>'')\<rparr>, True)"
  using assms
  by (simp add: SetTokenValidation_def OpenFile_def WriteString_def split: option.splits)

lemma RemoveTokenValidation_rewrites:
  assumes "ReadFile fs (tokensFile cfg u) = Inr c"
    and "tokensFile cfg u \<notin> open_fails fs" and "tokensFile cfg u \<notin> write_fails fs"
  shows "RemoveTokenValidation cfg fs u t =
         (fs\<lparr>files := (files fs)(tokensFile cfg u \<mapsto> TrimSpace (ReplaceFirst c t []) @ ''\<newline>'')\<rparr>, True)"
  using assms
  by (auto simp: RemoveTokenValidation_def ReadFile_def OpenFile_def WriteString_def Let_def
      split: option.splits if_splits)

lemma RemoveTokenValidation_missing:
  assumes "ReadFile fs (tokensFile cfg u) = Inl e"
  shows "RemoveTokenValidation cfg fs u t = (fs, False)"
  using assms by (simp add: RemoveTokenValidation_def)

lemma CheckTokenValidation_written:
  assumes "tokensFile cfg u \<notin> read_fails fs"
  shows "CheckTokenValidation cfg (fs\<lparr>files := (files fs)(tokensFile cfg u \<mapsto> c)\<rparr>) u t = Contains c t"
  using assms by (simp add: CheckTokenValidation_def ReadFile_def)

lemma Contains_appended: "Contains (c @ t @ s) t"
  by (simp add: Contains_sublist)

lemma duplicate_survives:
  assumes "t \<noteq> []" and "solid (hd t)" and "solid (last t)"
  shows "Contains (TrimSpace (ReplaceFirst (c @ t @ ''\<newline>'' @ t @ ''\<newline>'') t []) @ ''\<newline>'') t"
proof -
  obtain a' where "ReplaceFirst (c @ t @ (''\<newline>'' @ t @ ''\<newline>'')) t [] = a' @ (''\<newline>'' @ t @ ''\<newline>'')"
    using ReplaceFirst_keeps_tail by blast
  then have "ReplaceFirst (c @ t @ ''\<newline>'' @ t @ ''\<newline>'') t [] = (a' @ ''\<newline>'') @ t @ ''\<newline>''"
    by simp
  then have "sublist t (ReplaceFirst (c @ t @ ''\<newline>'' @ t @ ''\<newline>'') t [])"
    unfolding sublist_def by blast
  with assms have "sublist t (TrimSpace (ReplaceFirst (c @ t @ ''\<newline>'' @ t @ ''\<newline>'') t []))"
    by (rule TrimSpace_keeps)
  then obtain ps ss where
    "TrimSpace (ReplaceFirst (c @ t @ ''\<newline>'' @ t @ ''\<newline>'') t []) = ps @ t @ ss"
    by (auto simp: sublist_def)
  then have "TrimSpace (ReplaceFirst (c @ t @ ''\<newline>'' @ t @ ''\<newline>'') t []) @ ''\<newline>''
      = ps @ t @ (ss @ ''\<newline>'')" by simp
  then have "sublist t (TrimSpace (ReplaceFirst (c @ t @ ''\<newline>'' @ t @ ''\<newline>'') t []) @ ''\<newline>'')"
    unfolding sublist_def by blast
  then show ?thesis by (simp add: Contains_sublist)
qed

section \<open>Facts about \<open>OTPVerify\<close>\<close>

lemma OpenFile_trunc:
  "OpenFile fs p [O_RDWR, O_CREATE, O_TRUNC] =
     (if p \<in> open_fails fs then (fs, None)
      else (fs\<lparr>files := (files fs)(p \<mapsto> [])\<rparr>, Some \<lparr>file_name = p, file_append = False\<rparr>))"
  by (simp add: OpenFile_def split: option.splits)

lemma WriteString_at_start:
  "WriteString fs (Some \<lparr>file_name = p, file_append = False\<rparr>) s =
     (if p \<in> write_fails fs then (fs, Some ErrIO)
      else (fs\<lparr>files := (files fs)(p \<mapsto>
              s @ drop (length s) (case files fs p of None \<Rightarrow> [] | Some c \<Rightarrow> c))\<rparr>, None))"
  by (simp add: WriteString_def Let_def)

lemma WriteString_nil: "WriteString fs None s = (fs, Some ErrInvalid)"
  by (simp add: WriteString_def)

lemma SetTokenValidation_cases:
  "SetTokenValidation cfg fs u t =
     (if tokensFile cfg u \<in> open_fails fs then (fs, False)
      else if tokensFile cfg u \<in> write_fails fs
        then (fs\<lparr>files := (files fs)(tokensFile cfg u \<mapsto>
                (case files fs (tokensFile cfg u) of None \<Rightarrow> [] | Some c \<Rightarrow> c))\<rparr>, False)
      else (fs\<lparr>files := (files fs)(tokensFile cfg u \<mapsto>
              (case files fs (tokensFile cfg u) of None \<Rightarrow> [] | Some c \<Rightarrow> c) @ t @ ''\<newline>'')\<rparr>, True))"
  by (simp add: SetTokenValidation_def OpenFile_def WriteString_def split: option.splits)

lemma OTPVerify_accepted:
  assumes "snd (OTPVerify lib cfg fs (Some jsonOTP)) =
             JSON 200 200 ''OTP verified'' (DataString (Token jsonOTP))"
  shows "ValidateAuth lib cfg fs (Token jsonOTP) False = Inr True"
    and "GetUserSecret cfg fs (Username jsonOTP) \<noteq> []"
    and "otp_Authenticate lib
           \<lparr>Secret = GetUserSecret cfg fs (Username jsonOTP), WindowSize = 3, HotpCounter = 0\<rparr>
           (OTP jsonOTP) = (True, None)"
proof -
  show v: "ValidateAuth lib cfg fs (Token jsonOTP) False = Inr True"
  proof (cases "ValidateAuth lib cfg fs (Token jsonOTP) False")
    case (Inl p)
    with assms show ?thesis by (simp add: OTPVerify_def)
  next
    case (Inr valid)
    with assms show ?thesis by (cases valid) (simp_all add: OTPVerify_def)
  qed
  show s: "GetUserSecret cfg fs (Username jsonOTP) \<noteq> []"
  proof
    assume "GetUserSecret cfg fs (Username jsonOTP) = []"
    with assms v show False by (simp add: OTPVerify_def)
  qed
  obtain result err where a: "otp_Authenticate lib
           \<lparr>Secret = GetUserSecret cfg fs (Username jsonOTP), WindowSize = 3, HotpCounter = 0\<rparr>
           (OTP jsonOTP) = (result, err)" by (cases "otp_Authenticate lib
           \<lparr>Secret = GetUserSecret cfg fs (Username jsonOTP), WindowSize = 3, HotpCounter = 0\<rparr>
           (OTP jsonOTP)") auto
  have "err = None \<and> result"
  proof (rule ccontr)
    assume "\<not> (err = None \<and> result)"
    then have "err \<noteq> None \<or> \<not> result" by simp
    with assms v s a show False by (simp add: OTPVerify_def)
  qed
  with a show "otp_Authenticate lib
           \<lparr>Secret = GetUserSecret cfg fs (Username jsonOTP), WindowSize = 3, HotpCounter = 0\<rparr>
           (OTP jsonOTP) = (True, None)" by simp
qed

lemma OTPVerify_tail:
  assumes "ValidateAuth lib cfg fs (Token jsonOTP) False = Inr True"
    and "GetUserSecret cfg fs (Username jsonOTP) \<noteq> []"
    and "otp_Authenticate lib
           \<lparr>Secret = GetUserSecret cfg fs (Username jsonOTP), WindowSize = 3, HotpCounter = 0\<rparr>
           (OTP jsonOTP) = (True, None)"
  shows "OTPVerify lib cfg fs (Some jsonOTP) = enable2FA cfg fs (Username jsonOTP) (Token jsonOTP)"
  unfolding OTPVerify_def enable2FA_def statusOld_def using assms by (simp add: Let_def)

lemma enable2FA_success:
  assumes "snd (enable2FA cfg fs u t) = JSON 200 200 ''OTP verified'' (DataString t)"
    and "statusOld cfg fs u = ''0'' \<or> statusOld cfg fs u = []"
  shows "fst (enable2FA cfg fs u t) =
           fs\<lparr>files := ((files fs)(tokensFile cfg u \<mapsto> t @ ''\<newline>''))(statusFile cfg u \<mapsto> ''1'')\<rparr>"
proof -
  have o: "tokensFile cfg u \<notin> open_fails fs"
  proof
    assume "tokensFile cfg u \<in> open_fails fs"
    with assms show False
      by (simp add: enable2FA_def OpenFile_trunc WriteString_nil)
  qed
  have w: "tokensFile cfg u \<notin> write_fails fs"
  proof
    assume "tokensFile cfg u \<in> write_fails fs"
    with assms o show False
      by (simp add: enable2FA_def OpenFile_trunc WriteString_at_start)
  qed
  have so: "statusFile cfg u \<notin> open_fails fs"
  proof
    assume "statusFile cfg u \<in> open_fails fs"
    with assms o w show False
      by (simp add: enable2FA_def OpenFile_trunc WriteString_at_start WriteString_nil
          SetTokenValidation_cases)
  qed
  have sw: "statusFile cfg u \<notin> write_fails fs"
  proof
    assume "statusFile cfg u \<in> write_fails fs"
    with assms o w so show False
      by (simp add: enable2FA_def OpenFile_trunc WriteString_at_start WriteString_nil
          SetTokenValidation_cases)
  qed
  from assms(2) o w so sw show ?thesis
    by (simp add: enable2FA_def OpenFile_trunc WriteString_at_start SetTokenValidation_cases)
qed

section \<open>Facts about the login\<close>

lemma index_loginClaims:
  "index (loginClaims cfg fs username) ''id'' = JString username"
  "index (loginClaims cfg fs username) ''2fa'' = JBool (GetUserSecret cfg fs username \<noteq> [])"
  by (simp_all add: loginClaims_def PayloadFunc_def index_def)

lemma Authenticator_bound:
  assumes "login_Username l \<noteq> []" and "login_Password l \<noteq> []"
  shows "Authenticator (Some l) = Inr \<lparr>user_Username = login_Username l, user_Role = [], user_Actions = []\<rparr>"
  using assms by (simp add: Authenticator_def ShouldBind_def CheckAuthentication_def)

lemma LoginHandler_bound:
  assumes "login_Username l \<noteq> []" and "login_Password l \<noteq> []"
    and "signedString mw (loginClaims cfg fs (login_Username l)) = Some tokenString"
  shows "LoginHandler mw cfg fs (Some l) =
         LoginResponse cfg fs (loginClaims cfg fs (login_Username l)) tokenString"
  using assms(3) unfolding LoginHandler_def Authenticator_bound [OF assms(1,2)] loginClaims_def
  by (simp add: Let_def)

section \<open>The allow-list test\<close>

text \<open>
  C1, as the code has it. \<open>CheckTokenValidation\<close> searches the text of the user's token
  file for the token as a substring. For a token that is not empty and holds no newline
  it is true exactly when the token occurs inside some entry of the file, the whole of the
  entry or a part of it; so every stored token tests as a member, and so does every
  substring of a stored token.
\<close>

theorem CheckTokenValidation_substring:
  assumes "ReadFile fs (tokensFile cfg username) = Inr secrestList"
    and "token \<noteq> []" and "CHR 0x0A \<notin> set token"
  shows "CheckTokenValidation cfg fs username token \<longleftrightarrow>
         (\<exists>e\<in>set (entries secrestList). sublist token e)"
  using assms by (simp add: CheckTokenValidation_def Contains_joinLines)

theorem CheckTokenValidation_substring_witness:
  "ReadFile (demo_fs [(''/t/alice'', ''abcdef\<newline>'')]) (tokensFile demo_cfg ''alice'')
     = Inr ''abcdef\<newline>''
   \<and> ''abc'' \<noteq> [] \<and> CHR 0x0A \<notin> set ''abc''
   \<and> (CheckTokenValidation demo_cfg (demo_fs [(''/t/alice'', ''abcdef\<newline>'')]) ''alice'' ''abc''
        \<longleftrightarrow> (\<exists>e\<in>set (entries ''abcdef\<newline>''). sublist ''abc'' e))"
proof -
  have r: "ReadFile (demo_fs [(''/t/alice'', ''abcdef\<newline>'')]) (tokensFile demo_cfg ''alice'')
     = Inr ''abcdef\<newline>''"
    by (simp add: ReadFile_def demo_fs_def tokensFile_def demo_cfg_def)
  have n: "''abc'' \<noteq> []" and l: "CHR 0x0A \<notin> set ''abc''" by simp_all
  from CheckTokenValidation_substring [OF r n l] r n l show ?thesis by blast
qed

text \<open>
  C1 as the specification states it fails: \<open>abc\<close> is no entry of a file that holds the
  one token \<open>abcdef\<close>, and tests as a member.
\<close>

theorem CheckTokenValidation_exact_counterexample:
  "CheckTokenValidation demo_cfg (demo_fs [(''/t/alice'', ''abcdef\<newline>'')]) ''alice'' ''abc''
   \<and> ''abc'' \<notin> set (entries ''abcdef\<newline>'')"
  by (simp add: CheckTokenValidation_def ReadFile_def demo_fs_def tokensFile_def demo_cfg_def)

section \<open>The authorization of a request\<close>

text \<open>
  C2, as the code has it. \<open>Authorizator\<close> never looks at the \<open>2fa\<close> claim: whatever that
  claim says, a request is authorized exactly when \<open>CheckTokenValidation\<close> finds the raw
  token in the allow-list of the identity in the \<open>id\<close> claim. What the \<open>2fa\<close> claim
  decides is the admission at login: \<open>LoginResponse\<close> puts a token whose \<open>2fa\<close> claim is
  false on the allow-list, so that \<open>Authorizator\<close> lets it pass afterwards (when no call on
  the token file fails), and changes no file for a token whose \<open>2fa\<close> claim is true.
\<close>

theorem Authorizator_allow_list_always:
  assumes "index claims ''id'' = JString username"
  shows "Authorizator cfg fs (claims(''2fa'' \<mapsto> JBool required)) (Some tk) =
           Inr (CheckTokenValidation cfg fs username (Raw tk))
       \<and> (tokensFile cfg username \<notin> read_fails fs
            \<and> tokensFile cfg username \<notin> open_fails fs
            \<and> tokensFile cfg username \<notin> write_fails fs \<longrightarrow>
          Authorizator cfg (fst (LoginResponse cfg fs (claims(''2fa'' \<mapsto> JBool False)) (Raw tk)))
            (claims(''2fa'' \<mapsto> JBool False)) (Some tk) = Inr True)
       \<and> LoginResponse cfg fs (claims(''2fa'' \<mapsto> JBool True)) token =
           (fs, JSON 200 200 [] (DataString token))"
proof -
  have i: "index (claims(''2fa'' \<mapsto> JBool b)) ''id'' = JString username"
    "index (claims(''2fa'' \<mapsto> JBool b)) ''2fa'' = JBool b" for b
    using assms by (simp_all add: index_def)
  have 1: "Authorizator cfg fs' (claims(''2fa'' \<mapsto> JBool b)) (Some tk) =
           Inr (CheckTokenValidation cfg fs' username (Raw tk))" for fs' b
    by (simp add: Authorizator_def i)
  have 2: "Authorizator cfg (fst (LoginResponse cfg fs (claims(''2fa'' \<mapsto> JBool False)) (Raw tk)))
            (claims(''2fa'' \<mapsto> JBool False)) (Some tk) = Inr True"
    if "tokensFile cfg username \<notin> read_fails fs"
      and "tokensFile cfg username \<notin> open_fails fs"
      and "tokensFile cfg username \<notin> write_fails fs"
    using that
    by (simp add: 1 LoginResponse_def i SetTokenValidation_appends CheckTokenValidation_written
        Contains_appended)
  have 3: "LoginResponse cfg fs (claims(''2fa'' \<mapsto> JBool True)) token =
           (fs, JSON 200 200 [] (DataString token))"
    by (simp add: LoginResponse_def i)
  from 1 2 3 show ?thesis by blast
qed

theorem Authorizator_allow_list_always_witness:
  "index (demo_claims True) ''id'' = JString ''alice''
   \<and> Authorizator demo_cfg (demo_fs []) ((demo_claims True)(''2fa'' \<mapsto> JBool False))
       (Some (demo_token ''tok'' (SigningMethodHMAC ''HS256'') False)) = Inr False
   \<and> tokensFile demo_cfg ''alice'' \<notin> read_fails (demo_fs [])
   \<and> tokensFile demo_cfg ''alice'' \<notin> open_fails (demo_fs [])
   \<and> tokensFile demo_cfg ''alice'' \<notin> write_fails (demo_fs [])
   \<and> Authorizator demo_cfg
       (fst (LoginResponse demo_cfg (demo_fs []) ((demo_claims True)(''2fa'' \<mapsto> JBool False)) ''tok''))
       ((demo_claims True)(''2fa'' \<mapsto> JBool False))
       (Some (demo_token ''tok'' (SigningMethodHMAC ''HS256'') False)) = Inr True
   \<and> LoginResponse demo_cfg (demo_fs []) ((demo_claims True)(''2fa'' \<mapsto> JBool True)) ''tok''
       = (demo_fs [], JSON 200 200 [] (DataString ''tok''))"
proof -
  have h: "index (demo_claims True) ''id'' = JString ''alice''"
    by (simp add: index_def demo_claims_def)
  have f: "tokensFile demo_cfg ''alice'' \<notin> read_fails (demo_fs [])"
    "tokensFile demo_cfg ''alice'' \<notin> open_fails (demo_fs [])"
    "tokensFile demo_cfg ''alice'' \<notin> write_fails (demo_fs [])"
    by (simp_all add: demo_fs_def)
  have c: "\<not> CheckTokenValidation demo_cfg (demo_fs []) ''alice'' ''tok''"
    by (simp add: CheckTokenValidation_def ReadFile_def demo_fs_def)
  have r: "Raw (demo_token ''tok'' (SigningMethodHMAC ''HS256'') False) = ''tok''"
    by (simp add: demo_token_def)
  from Authorizator_allow_list_always [OF h, of demo_cfg "demo_fs []" False
      "demo_token ''tok'' (SigningMethodHMAC ''HS256'') False" "''tok''"] h f c r
  show ?thesis by simp
qed

text \<open>
  C2 as the specification states it fails: a token whose claims require no second factor
  and which is not on the allow-list is refused.
\<close>

theorem Authorizator_no_2fa_counterexample:
  "index (demo_claims False) ''2fa'' = JBool False \<and>
   Authorizator demo_cfg (demo_fs []) (demo_claims False)
       (Some (demo_token ''tok'' (SigningMethodHMAC ''HS256'') False)) = Inr False"
  by (simp add: Authorizator_def index_def demo_claims_def demo_token_def
      CheckTokenValidation_def ReadFile_def demo_fs_def)

section \<open>The signing method of a token\<close>

text \<open>
  C8. A token string that does not decode, or that decodes to a token whose signing method
  is not an HMAC method (\<open>alg = none\<close> among them), is rejected by \<open>ValidateAuth\<close>,
  whatever its claims, its signature and \<open>ensureTokenExists\<close> are: the key function
  returns an error before any claim is read.
\<close>

theorem ValidateAuth_rejects_non_HMAC:
  assumes "\<forall>token. jwt_decode lib tokenString = Some token \<longrightarrow>
             (\<forall>alg. Method token \<noteq> SigningMethodHMAC alg)"
  shows "ValidateAuth lib cfg fs tokenString ensureTokenExists = Inr False"
proof (cases "jwt_decode lib tokenString")
  case None
  then show ?thesis by (simp add: ValidateAuth_def Parse_def)
next
  case (Some token)
  with assms have "\<forall>alg. Method token \<noteq> SigningMethodHMAC alg" by simp
  then have "keyFunc cfg token = Inl ErrUnverifiable"
    by (cases "Method token") (simp_all add: keyFunc_def)
  with Some show ?thesis by (simp add: ValidateAuth_def Parse_def)
qed

theorem ValidateAuth_rejects_non_HMAC_witness:
  "jwt_decode demo_lib ''none.token'' = Some (demo_token ''none.token'' SigningMethodNone False) \<and>
   ValidateAuth demo_lib demo_cfg (demo_fs []) ''none.token'' False = Inr False \<and>
   jwt_decode demo_lib ''rsa.token'' = Some (demo_token ''rsa.token'' (SigningMethodOther ''RS256'') False) \<and>
   ValidateAuth demo_lib demo_cfg (demo_fs []) ''rsa.token'' True = Inr False \<and>
   ValidateAuth demo_lib demo_cfg (demo_fs []) ''hs.token'' False = Inr True"
proof -
  have n: "jwt_decode demo_lib ''none.token'' = Some (demo_token ''none.token'' SigningMethodNone False)"
    and r: "jwt_decode demo_lib ''rsa.token'' = Some (demo_token ''rsa.token'' (SigningMethodOther ''RS256'') False)"
    by (simp_all add: demo_lib_def)
  have hn: "\<forall>token. jwt_decode demo_lib ''none.token'' = Some token \<longrightarrow>
             (\<forall>alg. Method token \<noteq> SigningMethodHMAC alg)"
    by (simp add: n demo_token_def)
  have hr: "\<forall>token. jwt_decode demo_lib ''rsa.token'' = Some token \<longrightarrow>
             (\<forall>alg. Method token \<noteq> SigningMethodHMAC alg)"
    by (simp add: r demo_token_def)
  have hs: "ValidateAuth demo_lib demo_cfg (demo_fs []) ''hs.token'' False = Inr True"
    by (simp add: ValidateAuth_def Parse_def demo_lib_def demo_token_def keyFunc_def
        index_def demo_claims_def)
  from ValidateAuth_rejects_non_HMAC [OF hn] ValidateAuth_rejects_non_HMAC [OF hr] n r hs
  show ?thesis by blast
qed

section \<open>The primary credential check\<close>

text \<open>
  C10. \<open>CheckAuthentication\<close> returns no error for any user name and password. So for
  every login whose two fields are filled in, whatever the password, \<open>Authenticator\<close>
  returns the user and \<open>LoginHandler\<close> answers with the token it signed. For a user
  without a secret the token is put on the allow-list (when no call on the token file
  fails) and \<open>Authorizator\<close> lets a request with it pass; for a user with a secret the
  login changes no file. After the login \<open>Authorizator\<close> refuses a request with the token
  exactly when \<open>CheckTokenValidation\<close> does not find it on the user's allow-list.
\<close>

theorem login_without_credential_check:
  assumes "login_Username l \<noteq> []" and "login_Password l \<noteq> []"
    and "signedString mw (loginClaims cfg fs (login_Username l)) = Some tokenString"
  shows "CheckAuthentication username password = None
       \<and> Authenticator (Some l) =
           Inr \<lparr>user_Username = login_Username l, user_Role = [], user_Actions = []\<rparr>
       \<and> snd (LoginHandler mw cfg fs (Some l)) = JSON 200 200 [] (DataString tokenString)
       \<and> (GetUserSecret cfg fs (login_Username l) = []
            \<and> tokensFile cfg (login_Username l) \<notin> read_fails fs
            \<and> tokensFile cfg (login_Username l) \<notin> open_fails fs
            \<and> tokensFile cfg (login_Username l) \<notin> write_fails fs \<longrightarrow>
          Authorizator cfg (fst (LoginHandler mw cfg fs (Some l)))
            (loginClaims cfg fs (login_Username l)) (Some (tk\<lparr>Raw := tokenString\<rparr>)) = Inr True)
       \<and> (GetUserSecret cfg fs (login_Username l) \<noteq> [] \<longrightarrow>
          fst (LoginHandler mw cfg fs (Some l)) = fs)
       \<and> Authorizator cfg fs' (loginClaims cfg fs (login_Username l)) (Some (tk\<lparr>Raw := tokenString\<rparr>))
           = Inr (CheckTokenValidation cfg fs' (login_Username l) tokenString)"
proof -
  note lh = LoginHandler_bound [OF assms]
  have 1: "CheckAuthentication username password = None" by (simp add: CheckAuthentication_def)
  have 2: "Authenticator (Some l) =
           Inr \<lparr>user_Username = login_Username l, user_Role = [], user_Actions = []\<rparr>"
    using assms(1,2) by (rule Authenticator_bound)
  have 3: "snd (LoginHandler mw cfg fs (Some l)) = JSON 200 200 [] (DataString tokenString)"
    by (simp add: lh LoginResponse_def index_loginClaims)
  have 6: "Authorizator cfg fs' (loginClaims cfg fs (login_Username l)) (Some (tk\<lparr>Raw := tokenString\<rparr>))
           = Inr (CheckTokenValidation cfg fs' (login_Username l) tokenString)" for fs'
    by (simp add: Authorizator_def index_loginClaims)
  have 4: "Authorizator cfg (fst (LoginHandler mw cfg fs (Some l)))
            (loginClaims cfg fs (login_Username l)) (Some (tk\<lparr>Raw := tokenString\<rparr>)) = Inr True"
    if "GetUserSecret cfg fs (login_Username l) = []"
      and "tokensFile cfg (login_Username l) \<notin> read_fails fs"
      and "tokensFile cfg (login_Username l) \<notin> open_fails fs"
      and "tokensFile cfg (login_Username l) \<notin> write_fails fs"
    using that
    by (simp add: 6 lh LoginResponse_def index_loginClaims SetTokenValidation_appends
        CheckTokenValidation_written Contains_appended)
  have 5: "fst (LoginHandler mw cfg fs (Some l)) = fs"
    if "GetUserSecret cfg fs (login_Username l) \<noteq> []"
    using that by (simp add: lh LoginResponse_def index_loginClaims)
  from 1 2 3 4 5 6 show ?thesis by blast
qed

theorem login_without_credential_check_witness:
  "login_Username demo_login \<noteq> [] \<and> login_Password demo_login \<noteq> []
   \<and> signedString demo_mw (loginClaims demo_cfg (demo_fs []) (login_Username demo_login))
        = Some ''signed.token''
   \<and> signedString demo_mw
        (loginClaims demo_cfg (demo_fs [(''/s/mallory/secret'', ''S3CR3T'')]) (login_Username demo_login))
        = Some ''signed.token''
   \<and> CheckAuthentication ''mallory'' ''wrong'' = None
   \<and> snd (LoginHandler demo_mw demo_cfg (demo_fs []) (Some demo_login))
        = JSON 200 200 [] (DataString ''signed.token'')
   \<and> GetUserSecret demo_cfg (demo_fs []) (login_Username demo_login) = []
   \<and> tokensFile demo_cfg (login_Username demo_login) \<notin> read_fails (demo_fs [])
   \<and> tokensFile demo_cfg (login_Username demo_login) \<notin> open_fails (demo_fs [])
   \<and> tokensFile demo_cfg (login_Username demo_login) \<notin> write_fails (demo_fs [])
   \<and> Authorizator demo_cfg (fst (LoginHandler demo_mw demo_cfg (demo_fs []) (Some demo_login)))
        (loginClaims demo_cfg (demo_fs []) (login_Username demo_login))
        (Some ((demo_token [] (SigningMethodHMAC ''HS256'') False)\<lparr>Raw := ''signed.token''\<rparr>)) = Inr True
   \<and> GetUserSecret demo_cfg (demo_fs [(''/s/mallory/secret'', ''S3CR3T'')]) (login_Username demo_login) \<noteq> []
   \<and> snd (LoginHandler demo_mw demo_cfg (demo_fs [(''/s/mallory/secret'', ''S3CR3T'')]) (Some demo_login))
        = JSON 200 200 [] (DataString ''signed.token'')
   \<and> fst (LoginHandler demo_mw demo_cfg (demo_fs [(''/s/mallory/secret'', ''S3CR3T'')]) (Some demo_login))
        = demo_fs [(''/s/mallory/secret'', ''S3CR3T'')]
   \<and> Authorizator demo_cfg (demo_fs [(''/s/mallory/secret'', ''S3CR3T'')])
        (loginClaims demo_cfg (demo_fs [(''/s/mallory/secret'', ''S3CR3T'')]) (login_Username demo_login))
        (Some ((demo_token [] (SigningMethodHMAC ''HS256'') False)\<lparr>Raw := ''signed.token''\<rparr>)) = Inr False"
proof -
  let ?A = "demo_fs []"
  let ?B = "demo_fs [(''/s/mallory/secret'', ''S3CR3T'')]"
  let ?tk = "demo_token [] (SigningMethodHMAC ''HS256'') False"
  have u: "login_Username demo_login \<noteq> []" and p: "login_Password demo_login \<noteq> []"
    by (simp_all add: demo_login_def)
  have sA: "signedString demo_mw (loginClaims demo_cfg ?A (login_Username demo_login)) = Some ''signed.token''"
    and sB: "signedString demo_mw (loginClaims demo_cfg ?B (login_Username demo_login)) = Some ''signed.token''"
    by (simp_all add: demo_mw_def)
  have gA: "GetUserSecret demo_cfg ?A (login_Username demo_login) = []"
    by (simp add: GetUserSecret_def ReadFile_def demo_fs_def)
  have gB: "GetUserSecret demo_cfg ?B (login_Username demo_login) \<noteq> []"
    by (simp add: GetUserSecret_def ReadFile_def demo_fs_def secretFile_def demo_cfg_def demo_login_def)
  have f: "tokensFile demo_cfg (login_Username demo_login) \<notin> read_fails ?A"
    "tokensFile demo_cfg (login_Username demo_login) \<notin> open_fails ?A"
    "tokensFile demo_cfg (login_Username demo_login) \<notin> write_fails ?A"
    by (simp_all add: demo_fs_def)
  have c: "\<not> CheckTokenValidation demo_cfg ?B (login_Username demo_login) ''signed.token''"
    by (simp add: CheckTokenValidation_def ReadFile_def demo_fs_def tokensFile_def demo_cfg_def
        demo_login_def)
  have ca: "CheckAuthentication ''mallory'' ''wrong'' = None"
    using login_without_credential_check [OF u p sA] by blast
  from login_without_credential_check [OF u p sA, of "''mallory''" "''wrong''" ?tk ?B]
    login_without_credential_check [OF u p sB, of "''mallory''" "''wrong''" ?tk ?B]
    u p sA sB gA gB f c ca
  show ?thesis by simp
qed

section \<open>Disabling 2FA\<close>

text \<open>
  C6, as the code has it. \<open>Del2FAStatus\<close> removes the secret file first and has four
  outcomes. When the removal fails, it answers with an error and leaves every file as it
  was. When the removal succeeds and the status file can be opened and written, it
  answers with success, the secret is gone, the status file holds \<open>0\<close> and no other file
  has changed; \<open>GetUserSecret\<close> then returns the empty string and \<open>Get2FAStatus\<close> reports
  2FA as not set. When the removal succeeds and the status file cannot be opened, it
  answers with the error \<open>2FA not revocated\<close>, the secret is gone and the status file is
  as it was. When the status file opens and the write fails, it answers with the same
  error, the secret is gone and the status file is empty. The status file changes only
  after the removal has succeeded.
\<close>

theorem Del2FAStatus_outcomes:
  assumes "index claims ''id'' = JString username"
  shows "(snd (Remove fs (secretFile cfg username)) \<noteq> None \<longrightarrow>
            Del2FAStatus cfg fs claims =
              (fs, JSON 400 403 ''Error in revocate 2FA for user'' DataNil))
       \<and> (snd (Remove fs (secretFile cfg username)) = None
            \<and> statusFile cfg username \<notin> open_fails fs
            \<and> statusFile cfg username \<notin> write_fails fs \<longrightarrow>
            Del2FAStatus cfg fs claims =
              (fs\<lparr>files := ((files fs)(secretFile cfg username := None))
                               (statusFile cfg username \<mapsto> ''0'')\<rparr>,
               JSON 200 200 ''2FA revocate successfully'' (DataString []))
          \<and> GetUserSecret cfg (fst (Del2FAStatus cfg fs claims)) username = []
          \<and> Get2FAStatus cfg (fst (Del2FAStatus cfg fs claims)) claims =
              JSON 200 200 ''2FA not set for this user'' (DataBool False))
       \<and> (snd (Remove fs (secretFile cfg username)) = None
            \<and> statusFile cfg username \<in> open_fails fs \<longrightarrow>
            Del2FAStatus cfg fs claims =
              (fs\<lparr>files := (files fs)(secretFile cfg username := None)\<rparr>,
               JSON 400 400 ''2FA not revocated'' (DataString [])))
       \<and> (snd (Remove fs (secretFile cfg username)) = None
            \<and> statusFile cfg username \<notin> open_fails fs
            \<and> statusFile cfg username \<in> write_fails fs \<longrightarrow>
            Del2FAStatus cfg fs claims =
              (fs\<lparr>files := ((files fs)(secretFile cfg username := None))
                               (statusFile cfg username \<mapsto> [])\<rparr>,
               JSON 400 400 ''2FA not revocated'' (DataString [])))
       \<and> (files (fst (Del2FAStatus cfg fs claims)) (statusFile cfg username)
             \<noteq> files fs (statusFile cfg username) \<longrightarrow>
            snd (Remove fs (secretFile cfg username)) = None)"
proof -
  have t0: "TrimSpace ''0'' = ''0''" by (rule TrimSpace_solid) (simp_all add: solid_digits)
  show ?thesis
    using assms secret_status_distinct[of cfg username]
    by (auto simp: Del2FAStatus_def Remove_def OpenFile_def WriteString_def Get2FAStatus_def
        GetUserSecret_def ReadFile_def t0 TrimSpace_Nil Let_def split: option.splits if_splits)
qed

theorem Del2FAStatus_outcomes_witness:
  "index (demo_claims True) ''id'' = JString ''alice''
   \<and> snd (Remove (demo_faulty [(''/s/alice/secret'', ''S3CR3T''), (''/s/alice/status'', ''1'')] ''/s/alice/secret'')
            (secretFile demo_cfg ''alice'')) \<noteq> None
   \<and> Del2FAStatus demo_cfg
        (demo_faulty [(''/s/alice/secret'', ''S3CR3T''), (''/s/alice/status'', ''1'')] ''/s/alice/secret'')
        (demo_claims True) =
      (demo_faulty [(''/s/alice/secret'', ''S3CR3T''), (''/s/alice/status'', ''1'')] ''/s/alice/secret'',
       JSON 400 403 ''Error in revocate 2FA for user'' DataNil)
   \<and> snd (Remove (demo_fs [(''/s/alice/secret'', ''S3CR3T''), (''/s/alice/status'', ''1'')])
            (secretFile demo_cfg ''alice'')) = None
   \<and> statusFile demo_cfg ''alice'' \<notin> open_fails (demo_fs [(''/s/alice/secret'', ''S3CR3T''), (''/s/alice/status'', ''1'')])
   \<and> statusFile demo_cfg ''alice'' \<notin> write_fails (demo_fs [(''/s/alice/secret'', ''S3CR3T''), (''/s/alice/status'', ''1'')])
   \<and> snd (Del2FAStatus demo_cfg
        (demo_fs [(''/s/alice/secret'', ''S3CR3T''), (''/s/alice/status'', ''1'')]) (demo_claims True)) =
      JSON 200 200 ''2FA revocate successfully'' (DataString [])
   \<and> files (fst (Del2FAStatus demo_cfg
        (demo_fs [(''/s/alice/secret'', ''S3CR3T''), (''/s/alice/status'', ''1'')]) (demo_claims True)))
        (statusFile demo_cfg ''alice'') \<noteq>
      files (demo_fs [(''/s/alice/secret'', ''S3CR3T''), (''/s/alice/status'', ''1'')])
        (statusFile demo_cfg ''alice'')
   \<and> GetUserSecret demo_cfg (fst (Del2FAStatus demo_cfg
        (demo_fs [(''/s/alice/secret'', ''S3CR3T''), (''/s/alice/status'', ''1'')]) (demo_claims True)))
        ''alice'' = []
   \<and> Get2FAStatus demo_cfg (fst (Del2FAStatus demo_cfg
        (demo_fs [(''/s/alice/secret'', ''S3CR3T''), (''/s/alice/status'', ''1'')]) (demo_claims True)))
        (demo_claims True) = JSON 200 200 ''2FA not set for this user'' (DataBool False)
   \<and> snd (Remove (demo_faulty [(''/s/alice/secret'', ''S3CR3T''), (''/s/alice/status'', ''1'')] ''/s/alice/status'')
            (secretFile demo_cfg ''alice'')) = None
   \<and> statusFile demo_cfg ''alice'' \<in>
        open_fails (demo_faulty [(''/s/alice/secret'', ''S3CR3T''), (''/s/alice/status'', ''1'')] ''/s/alice/status'')
   \<and> snd (Del2FAStatus demo_cfg
        (demo_faulty [(''/s/alice/secret'', ''S3CR3T''), (''/s/alice/status'', ''1'')] ''/s/alice/status'')
        (demo_claims True)) = JSON 400 400 ''2FA not revocated'' (DataString [])
   \<and> snd (Remove (demo_unwritable [(''/s/alice/secret'', ''S3CR3T''), (''/s/alice/status'', ''1'')] ''/s/alice/status'')
            (secretFile demo_cfg ''alice'')) = None
   \<and> statusFile demo_cfg ''alice'' \<notin>
        open_fails (demo_unwritable [(''/s/alice/secret'', ''S3CR3T''), (''/s/alice/status'', ''1'')] ''/s/alice/status'')
   \<and> statusFile demo_cfg ''alice'' \<in>
        write_fails (demo_unwritable [(''/s/alice/secret'', ''S3CR3T''), (''/s/alice/status'', ''1'')] ''/s/alice/status'')
   \<and> snd (Del2FAStatus demo_cfg
        (demo_unwritable [(''/s/alice/secret'', ''S3CR3T''), (''/s/alice/status'', ''1'')] ''/s/alice/status'')
        (demo_claims True)) = JSON 400 400 ''2FA not revocated'' (DataString [])"
proof -
  let ?fl = "[(''/s/alice/secret'', ''S3CR3T''), (''/s/alice/status'', ''1'')]"
  let ?F1 = "demo_faulty ?fl ''/s/alice/secret''"
  let ?F2 = "demo_fs ?fl"
  let ?F3 = "demo_faulty ?fl ''/s/alice/status''"
  let ?F4 = "demo_unwritable ?fl ''/s/alice/status''"
  have h: "index (demo_claims True) ''id'' = JString ''alice''"
    by (simp add: index_def demo_claims_def)
  have a1: "snd (Remove ?F1 (secretFile demo_cfg ''alice'')) \<noteq> None"
    by (simp add: Remove_def demo_faulty_def secretFile_def demo_cfg_def)
  have a2: "snd (Remove ?F2 (secretFile demo_cfg ''alice'')) = None
      \<and> statusFile demo_cfg ''alice'' \<notin> open_fails ?F2
      \<and> statusFile demo_cfg ''alice'' \<notin> write_fails ?F2"
    by (simp add: Remove_def demo_fs_def secretFile_def statusFile_def demo_cfg_def)
  have a3: "snd (Remove ?F3 (secretFile demo_cfg ''alice'')) = None
      \<and> statusFile demo_cfg ''alice'' \<in> open_fails ?F3"
    by (simp add: Remove_def demo_faulty_def secretFile_def statusFile_def demo_cfg_def)
  have a4: "snd (Remove ?F4 (secretFile demo_cfg ''alice'')) = None
      \<and> statusFile demo_cfg ''alice'' \<notin> open_fails ?F4
      \<and> statusFile demo_cfg ''alice'' \<in> write_fails ?F4"
    by (simp add: Remove_def demo_unwritable_def secretFile_def statusFile_def demo_cfg_def)
  have a5: "files (fst (Del2FAStatus demo_cfg ?F2 (demo_claims True))) (statusFile demo_cfg ''alice'')
      \<noteq> files ?F2 (statusFile demo_cfg ''alice'')"
    by (simp add: Del2FAStatus_def h Remove_def OpenFile_def WriteString_def demo_fs_def
        secretFile_def statusFile_def demo_cfg_def)
  have r1: "Del2FAStatus demo_cfg ?F1 (demo_claims True) =
      (?F1, JSON 400 403 ''Error in revocate 2FA for user'' DataNil)"
    using Del2FAStatus_outcomes [OF h, of ?F1 demo_cfg] a1 by blast
  have e2: "Del2FAStatus demo_cfg ?F2 (demo_claims True) =
        (?F2\<lparr>files := ((files ?F2)(secretFile demo_cfg ''alice'' := None))
                            (statusFile demo_cfg ''alice'' \<mapsto> ''0'')\<rparr>,
         JSON 200 200 ''2FA revocate successfully'' (DataString []))
      \<and> GetUserSecret demo_cfg (fst (Del2FAStatus demo_cfg ?F2 (demo_claims True))) ''alice'' = []
      \<and> Get2FAStatus demo_cfg (fst (Del2FAStatus demo_cfg ?F2 (demo_claims True))) (demo_claims True)
          = JSON 200 200 ''2FA not set for this user'' (DataBool False)"
    using Del2FAStatus_outcomes [OF h, of ?F2 demo_cfg] a2 by blast
  from e2 [THEN conjunct1] have r2: "snd (Del2FAStatus demo_cfg ?F2 (demo_claims True)) =
        JSON 200 200 ''2FA revocate successfully'' (DataString [])" by simp
  have e3: "Del2FAStatus demo_cfg ?F3 (demo_claims True) =
        (?F3\<lparr>files := (files ?F3)(secretFile demo_cfg ''alice'' := None)\<rparr>,
         JSON 400 400 ''2FA not revocated'' (DataString []))"
    using Del2FAStatus_outcomes [OF h, of ?F3 demo_cfg] a3 by blast
  then have r3: "snd (Del2FAStatus demo_cfg ?F3 (demo_claims True)) =
        JSON 400 400 ''2FA not revocated'' (DataString [])" by simp
  have e4: "Del2FAStatus demo_cfg ?F4 (demo_claims True) =
        (?F4\<lparr>files := ((files ?F4)(secretFile demo_cfg ''alice'' := None))
                            (statusFile demo_cfg ''alice'' \<mapsto> [])\<rparr>,
         JSON 400 400 ''2FA not revocated'' (DataString []))"
    using Del2FAStatus_outcomes [OF h, of ?F4 demo_cfg] a4 by blast
  then have r4: "snd (Del2FAStatus demo_cfg ?F4 (demo_claims True)) =
        JSON 400 400 ''2FA not revocated'' (DataString [])" by simp
  from h a1 a2 a3 a4 a5 r1 e2 r2 r3 r4 show ?thesis by blast
qed

text \<open>
  C6 as the specification states it fails: disabling is not atomic. With 2FA enabled and a
  status file that cannot be opened for writing, \<open>Del2FAStatus\<close> answers with an error,
  yet the secret is deleted, and \<open>Get2FAStatus\<close> still reports 2FA as set.
\<close>

theorem Del2FAStatus_atomic_counterexample:
  "GetUserSecret demo_cfg
     (demo_faulty [(''/s/alice/secret'', ''S3CR3T''), (''/s/alice/status'', ''1'')] ''/s/alice/status'')
     ''alice'' = ''S3CR3T''
   \<and> Get2FAStatus demo_cfg
     (demo_faulty [(''/s/alice/secret'', ''S3CR3T''), (''/s/alice/status'', ''1'')] ''/s/alice/status'')
     (demo_claims True) = JSON 200 200 ''2FA set for this user'' (DataBool True)
   \<and> snd (Del2FAStatus demo_cfg
     (demo_faulty [(''/s/alice/secret'', ''S3CR3T''), (''/s/alice/status'', ''1'')] ''/s/alice/status'')
     (demo_claims True)) = JSON 400 400 ''2FA not revocated'' (DataString [])
   \<and> GetUserSecret demo_cfg (fst (Del2FAStatus demo_cfg
     (demo_faulty [(''/s/alice/secret'', ''S3CR3T''), (''/s/alice/status'', ''1'')] ''/s/alice/status'')
     (demo_claims True))) ''alice'' = []
   \<and> Get2FAStatus demo_cfg (fst (Del2FAStatus demo_cfg
     (demo_faulty [(''/s/alice/secret'', ''S3CR3T''), (''/s/alice/status'', ''1'')] ''/s/alice/status'')
     (demo_claims True))) (demo_claims True) = JSON 200 200 ''2FA set for this user'' (DataBool True)"
proof -
  have t1: "TrimSpace ''1'' = ''1''" by (rule TrimSpace_solid) (simp_all add: solid_digits)
  show ?thesis
    by (simp add: Del2FAStatus_def Get2FAStatus_def GetUserSecret_def index_def demo_claims_def
        Remove_def OpenFile_def WriteString_def ReadFile_def demo_faulty_def secretFile_def
        statusFile_def demo_cfg_def t1)
qed

section \<open>Provisioning a secret\<close>

text \<open>
  C5. For a user with no secret and a first value that is a secret (not the empty string,
  which the code reads as no secret), when no call on the secret file fails:
  \<open>SetUserSecret\<close> stores and returns the first value, and a second call with any other
  value returns the first value again and changes no file.
\<close>

theorem SetUserSecret_keeps_first:
  assumes "secretFile cfg username \<notin> read_fails fs"
    and "secretFile cfg username \<notin> open_fails fs"
    and "secretFile cfg username \<notin> write_fails fs"
    and "GetUserSecret cfg fs username = []"
    and "secret1 \<noteq> []"
  shows "snd (SetUserSecret cfg fs username secret1) = (True, secret1)
       \<and> SetUserSecret cfg (fst (SetUserSecret cfg fs username secret1)) username secret2
           = (fst (SetUserSecret cfg fs username secret1), True, secret1)
       \<and> GetUserSecret cfg (fst (SetUserSecret cfg fs username secret1)) username = secret1"
  using assms
  by (auto simp: SetUserSecret_def GetUserSecret_def ReadFile_def OpenFile_def WriteString_def
      MkdirAll_def Let_def split: option.splits if_splits)

theorem SetUserSecret_keeps_first_witness:
  "secretFile demo_cfg ''alice'' \<notin> read_fails (demo_fs [])
   \<and> secretFile demo_cfg ''alice'' \<notin> open_fails (demo_fs [])
   \<and> secretFile demo_cfg ''alice'' \<notin> write_fails (demo_fs [])
   \<and> GetUserSecret demo_cfg (demo_fs []) ''alice'' = []
   \<and> ''FIRST'' \<noteq> []
   \<and> snd (SetUserSecret demo_cfg (demo_fs []) ''alice'' ''FIRST'') = (True, ''FIRST'')
   \<and> SetUserSecret demo_cfg (fst (SetUserSecret demo_cfg (demo_fs []) ''alice'' ''FIRST'')) ''alice'' ''SECOND''
       = (fst (SetUserSecret demo_cfg (demo_fs []) ''alice'' ''FIRST''), True, ''FIRST'')
   \<and> GetUserSecret demo_cfg (fst (SetUserSecret demo_cfg (demo_fs []) ''alice'' ''FIRST'')) ''alice'' = ''FIRST''"
proof -
  have r: "secretFile demo_cfg ''alice'' \<notin> read_fails (demo_fs [])"
    and "open": "secretFile demo_cfg ''alice'' \<notin> open_fails (demo_fs [])"
    and w: "secretFile demo_cfg ''alice'' \<notin> write_fails (demo_fs [])"
    by (simp_all add: demo_fs_def)
  have g: "GetUserSecret demo_cfg (demo_fs []) ''alice'' = []"
    by (simp add: GetUserSecret_def ReadFile_def demo_fs_def)
  have n: "''FIRST'' \<noteq> []" by simp
  from SetUserSecret_keeps_first [OF r "open" w g n, of "''SECOND''"] r "open" w g n
  show ?thesis by blast
qed

section \<open>Adding and removing tokens\<close>

text \<open>
  C4, as the code has it. When no call on the token file fails: after
  \<open>SetTokenValidation\<close> of a token, \<open>CheckTokenValidation\<close> of it is true. After
  \<open>RemoveTokenValidation\<close> of a non-empty token \<open>t1\<close> without a newline that is stored at
  most once and is a substring of no other stored entry, \<open>CheckTokenValidation\<close> of \<open>t1\<close>
  is false. After \<open>RemoveTokenValidation\<close> of any \<open>t1\<close> without a newline,
  \<open>CheckTokenValidation\<close> stays true for every stored token \<open>t2\<close> that \<open>t1\<close> is no
  substring of, when \<open>t2\<close> is not empty and its first and last byte are solid.
\<close>

theorem allow_list_round_trip:
  assumes "tokensFile cfg username \<notin> read_fails fs"
    and "tokensFile cfg username \<notin> open_fails fs"
    and "tokensFile cfg username \<notin> write_fails fs"
  shows "CheckTokenValidation cfg (fst (SetTokenValidation cfg fs username t)) username t
       \<and> (t1 \<noteq> [] \<and> CHR 0x0A \<notin> set t1 \<and> count_list (stored cfg fs username) t1 \<le> 1
            \<and> (\<forall>e\<in>set (stored cfg fs username). sublist t1 e \<longrightarrow> e = t1) \<longrightarrow>
          \<not> CheckTokenValidation cfg (fst (RemoveTokenValidation cfg fs username t1)) username t1)
       \<and> (CHR 0x0A \<notin> set t1 \<longrightarrow>
          (\<forall>t2\<in>set (stored cfg fs username).
                \<not> sublist t1 t2 \<and> t2 \<noteq> [] \<and> solid (hd t2) \<and> solid (last t2) \<longrightarrow>
                CheckTokenValidation cfg (fst (RemoveTokenValidation cfg fs username t1)) username t2))"
proof (intro conjI impI ballI)
  show "CheckTokenValidation cfg (fst (SetTokenValidation cfg fs username t)) username t"
    using assms
    by (simp add: SetTokenValidation_appends CheckTokenValidation_written Contains_appended)
next
  assume h: "t1 \<noteq> [] \<and> CHR 0x0A \<notin> set t1 \<and> count_list (stored cfg fs username) t1 \<le> 1
      \<and> (\<forall>e\<in>set (stored cfg fs username). sublist t1 e \<longrightarrow> e = t1)"
  show "\<not> CheckTokenValidation cfg (fst (RemoveTokenValidation cfg fs username t1)) username t1"
  proof (cases "ReadFile fs (tokensFile cfg username)")
    case (Inl e)
    then show ?thesis
      by (simp add: RemoveTokenValidation_missing CheckTokenValidation_def)
  next
    case (Inr c)
    with h have "\<not> Contains (TrimSpace (ReplaceFirst c t1 []) @ ''\<newline>'') t1"
      by (intro removed_not_contained) (simp_all add: stored_def)
    with Inr assms show ?thesis
      by (simp add: RemoveTokenValidation_rewrites CheckTokenValidation_written)
  qed
next
  fix t2
  assume n: "CHR 0x0A \<notin> set t1"
    and m: "t2 \<in> set (stored cfg fs username)"
    and k: "\<not> sublist t1 t2 \<and> t2 \<noteq> [] \<and> solid (hd t2) \<and> solid (last t2)"
  show "CheckTokenValidation cfg (fst (RemoveTokenValidation cfg fs username t1)) username t2"
  proof (cases "ReadFile fs (tokensFile cfg username)")
    case (Inl e)
    with m show ?thesis by (simp add: stored_def)
  next
    case (Inr c)
    with n m k have "Contains (TrimSpace (ReplaceFirst c t1 []) @ ''\<newline>'') t2"
      by (intro unrelated_still_contained) (simp_all add: stored_def)
    with Inr assms show ?thesis
      by (simp add: RemoveTokenValidation_rewrites CheckTokenValidation_written)
  qed
qed

theorem allow_list_round_trip_witness:
  "tokensFile demo_cfg ''alice'' \<notin> read_fails (demo_fs [(''/t/alice'', ''aaa\<newline>bbb\<newline>ccc\<newline>'')])
   \<and> tokensFile demo_cfg ''alice'' \<notin> open_fails (demo_fs [(''/t/alice'', ''aaa\<newline>bbb\<newline>ccc\<newline>'')])
   \<and> tokensFile demo_cfg ''alice'' \<notin> write_fails (demo_fs [(''/t/alice'', ''aaa\<newline>bbb\<newline>ccc\<newline>'')])
   \<and> stored demo_cfg (demo_fs [(''/t/alice'', ''aaa\<newline>bbb\<newline>ccc\<newline>'')]) ''alice''
        = [''aaa'', ''bbb'', ''ccc'', []]
   \<and> CheckTokenValidation demo_cfg
        (fst (SetTokenValidation demo_cfg (demo_fs [(''/t/alice'', ''aaa\<newline>bbb\<newline>ccc\<newline>'')]) ''alice'' ''abc''))
        ''alice'' ''abc''
   \<and> \<not> CheckTokenValidation demo_cfg
        (fst (RemoveTokenValidation demo_cfg (demo_fs [(''/t/alice'', ''aaa\<newline>bbb\<newline>ccc\<newline>'')]) ''alice'' ''bbb''))
        ''alice'' ''bbb''
   \<and> CheckTokenValidation demo_cfg
        (fst (RemoveTokenValidation demo_cfg (demo_fs [(''/t/alice'', ''aaa\<newline>bbb\<newline>ccc\<newline>'')]) ''alice'' ''bbb''))
        ''alice'' ''aaa''
   \<and> CheckTokenValidation demo_cfg
        (fst (RemoveTokenValidation demo_cfg (demo_fs [(''/t/alice'', ''aaa\<newline>bbb\<newline>ccc\<newline>'')]) ''alice'' ''bbb''))
        ''alice'' ''ccc''
   \<and> stored demo_cfg (demo_fs [(''/t/alice'', ''abc\<newline>ab\<newline>xyz\<newline>'')]) ''alice''
        = [''abc'', ''ab'', ''xyz'', []]
   \<and> CheckTokenValidation demo_cfg
        (fst (RemoveTokenValidation demo_cfg (demo_fs [(''/t/alice'', ''abc\<newline>ab\<newline>xyz\<newline>'')]) ''alice'' ''ab''))
        ''alice'' ''xyz''"
proof -
  let ?A = "demo_fs [(''/t/alice'', ''aaa\<newline>bbb\<newline>ccc\<newline>'')]"
  let ?B = "demo_fs [(''/t/alice'', ''abc\<newline>ab\<newline>xyz\<newline>'')]"
  have r: "tokensFile demo_cfg ''alice'' \<notin> read_fails ?A"
    and "open": "tokensFile demo_cfg ''alice'' \<notin> open_fails ?A"
    and w: "tokensFile demo_cfg ''alice'' \<notin> write_fails ?A"
    and r': "tokensFile demo_cfg ''alice'' \<notin> read_fails ?B"
    and open': "tokensFile demo_cfg ''alice'' \<notin> open_fails ?B"
    and w': "tokensFile demo_cfg ''alice'' \<notin> write_fails ?B"
    by (simp_all add: demo_fs_def)
  have st: "stored demo_cfg ?A ''alice'' = [''aaa'', ''bbb'', ''ccc'', []]"
    and st': "stored demo_cfg ?B ''alice'' = [''abc'', ''ab'', ''xyz'', []]"
    by (simp_all add: stored_def ReadFile_def demo_fs_def tokensFile_def demo_cfg_def)
  have a: "''bbb'' \<noteq> [] \<and> CHR 0x0A \<notin> set ''bbb''
       \<and> count_list (stored demo_cfg ?A ''alice'') ''bbb'' \<le> 1
       \<and> (\<forall>e\<in>set (stored demo_cfg ?A ''alice''). sublist ''bbb'' e \<longrightarrow> e = ''bbb'')"
    by (simp add: st sublist_code)
  have n: "CHR 0x0A \<notin> set ''bbb''" "CHR 0x0A \<notin> set ''ab''" by simp_all
  have s: "\<not> sublist ''bbb'' ''aaa''" "\<not> sublist ''bbb'' ''ccc''" "\<not> sublist ''ab'' ''xyz''"
    by (simp_all add: sublist_code)
  from allow_list_round_trip [OF r "open" w, of "''abc''" "''bbb''"]
    allow_list_round_trip [OF r' open' w', of "''abc''" "''ab''"]
    a n s r "open" w st st'
  show ?thesis by (simp add: solid_letters solid_more)
qed

text \<open>
  C4 as the specification states it fails when \<open>t1\<close> is a substring of a token stored
  before it: with \<open>abc\<close> and \<open>ab\<close> stored, removing \<open>ab\<close> cuts it out of \<open>abc\<close>;
  afterwards \<open>ab\<close> still tests as a member and \<open>abc\<close> no longer does.
\<close>

theorem allow_list_round_trip_counterexample:
  "stored demo_cfg (demo_fs [(''/t/alice'', ''abc\<newline>ab\<newline>'')]) ''alice'' = [''abc'', ''ab'', []]
   \<and> CheckTokenValidation demo_cfg (demo_fs [(''/t/alice'', ''abc\<newline>ab\<newline>'')]) ''alice'' ''abc''
   \<and> RemoveTokenValidation demo_cfg (demo_fs [(''/t/alice'', ''abc\<newline>ab\<newline>'')]) ''alice'' ''ab''
       = (demo_fs [(''/t/alice'', ''c\<newline>ab\<newline>'')], True)
   \<and> CheckTokenValidation demo_cfg (demo_fs [(''/t/alice'', ''c\<newline>ab\<newline>'')]) ''alice'' ''ab''
   \<and> \<not> CheckTokenValidation demo_cfg (demo_fs [(''/t/alice'', ''c\<newline>ab\<newline>'')]) ''alice'' ''abc''"
proof -
  have t: "TrimSpace ''c\<newline>ab\<newline>'' = ''c\<newline>ab''" by code_simp
  have "(map_of [(''/t/alice'', ''abc\<newline>ab\<newline>'')])(''/t/alice'' \<mapsto> ''c\<newline>ab\<newline>'')
        = map_of [(''/t/alice'', ''c\<newline>ab\<newline>'')]"
    by (rule ext) simp
  then show ?thesis
    by (simp add: stored_def CheckTokenValidation_def RemoveTokenValidation_def ReadFile_def
        OpenFile_def WriteString_def demo_fs_def tokensFile_def demo_cfg_def t)
qed

section \<open>Adding a token twice\<close>

text \<open>
  C7, as the code has it. \<open>SetTokenValidation\<close> appends the token and a newline without
  looking at the file: when no call on the token file fails, two calls with one token
  store it twice, and after one \<open>RemoveTokenValidation\<close> a token that is not empty and
  neither begins nor ends with a byte of a white space rune is still a member.
\<close>

theorem SetTokenValidation_duplicates:
  assumes "tokensFile cfg username \<notin> read_fails fs"
    and "tokensFile cfg username \<notin> open_fails fs"
    and "tokensFile cfg username \<notin> write_fails fs"
    and "token \<noteq> []" and "solid (hd token)" and "solid (last token)"
  shows "files (fst (SetTokenValidation cfg (fst (SetTokenValidation cfg fs username token)) username token))
           (tokensFile cfg username)
         = Some ((case files fs (tokensFile cfg username) of None \<Rightarrow> [] | Some c \<Rightarrow> c)
                 @ token @ ''\<newline>'' @ token @ ''\<newline>'')
       \<and> CheckTokenValidation cfg (add_twice_remove_once cfg fs username token) username token"
proof -
  let ?p = "tokensFile cfg username"
  let ?c = "case files fs ?p of None \<Rightarrow> [] | Some c \<Rightarrow> c"
  let ?fs1 = "fs\<lparr>files := (files fs)(?p \<mapsto> ?c @ token @ ''\<newline>'')\<rparr>"
  let ?fs2 = "fs\<lparr>files := (files fs)(?p \<mapsto> ?c @ token @ ''\<newline>'' @ token @ ''\<newline>'')\<rparr>"
  have s1: "SetTokenValidation cfg fs username token = (?fs1, True)"
    using assms(2,3) by (rule SetTokenValidation_appends)
  have "SetTokenValidation cfg ?fs1 username token =
          (?fs1\<lparr>files := (files ?fs1)(?p \<mapsto>
              (case files ?fs1 ?p of None \<Rightarrow> [] | Some c \<Rightarrow> c) @ token @ ''\<newline>'')\<rparr>, True)"
    using assms(2,3) by (intro SetTokenValidation_appends) simp_all
  then have s2: "SetTokenValidation cfg ?fs1 username token = (?fs2, True)" by simp
  have "ReadFile ?fs2 ?p = Inr (?c @ token @ ''\<newline>'' @ token @ ''\<newline>'')"
    using assms(1) by (simp add: ReadFile_def)
  then have "RemoveTokenValidation cfg ?fs2 username token =
      (?fs2\<lparr>files := (files ?fs2)(?p \<mapsto>
          TrimSpace (ReplaceFirst (?c @ token @ ''\<newline>'' @ token @ ''\<newline>'') token []) @ ''\<newline>'')\<rparr>, True)"
    using assms(2,3) by (intro RemoveTokenValidation_rewrites) simp_all
  then have s3: "add_twice_remove_once cfg fs username token =
      ?fs2\<lparr>files := (files ?fs2)(?p \<mapsto>
          TrimSpace (ReplaceFirst (?c @ token @ ''\<newline>'' @ token @ ''\<newline>'') token []) @ ''\<newline>'')\<rparr>"
    by (simp add: add_twice_remove_once_def s1 s2)
  have "?p \<notin> read_fails ?fs2" using assms(1) by simp
  then have "CheckTokenValidation cfg (add_twice_remove_once cfg fs username token) username token
      = Contains (TrimSpace (ReplaceFirst (?c @ token @ ''\<newline>'' @ token @ ''\<newline>'') token []) @ ''\<newline>'') token"
    unfolding s3 by (rule CheckTokenValidation_written)
  moreover have "Contains (TrimSpace (ReplaceFirst (?c @ token @ ''\<newline>'' @ token @ ''\<newline>'') token []) @ ''\<newline>'') token"
    using assms(4,5,6) by (rule duplicate_survives)
  ultimately show ?thesis by (simp add: s1 s2)
qed

theorem SetTokenValidation_duplicates_witness:
  "tokensFile demo_cfg ''alice'' \<notin> read_fails (demo_fs [(''/t/alice'', ''abc\<newline>'')])
   \<and> tokensFile demo_cfg ''alice'' \<notin> open_fails (demo_fs [(''/t/alice'', ''abc\<newline>'')])
   \<and> tokensFile demo_cfg ''alice'' \<notin> write_fails (demo_fs [(''/t/alice'', ''abc\<newline>'')])
   \<and> ''tok'' \<noteq> [] \<and> solid (hd ''tok'') \<and> solid (last ''tok'')
   \<and> files (fst (SetTokenValidation demo_cfg
         (fst (SetTokenValidation demo_cfg (demo_fs [(''/t/alice'', ''abc\<newline>'')]) ''alice'' ''tok''))
         ''alice'' ''tok'')) (tokensFile demo_cfg ''alice'')
       = Some ''abc\<newline>tok\<newline>tok\<newline>''
   \<and> CheckTokenValidation demo_cfg
        (add_twice_remove_once demo_cfg (demo_fs [(''/t/alice'', ''abc\<newline>'')]) ''alice'' ''tok'')
        ''alice'' ''tok''"
proof -
  have r: "tokensFile demo_cfg ''alice'' \<notin> read_fails (demo_fs [(''/t/alice'', ''abc\<newline>'')])"
    and "open": "tokensFile demo_cfg ''alice'' \<notin> open_fails (demo_fs [(''/t/alice'', ''abc\<newline>'')])"
    and w: "tokensFile demo_cfg ''alice'' \<notin> write_fails (demo_fs [(''/t/alice'', ''abc\<newline>'')])"
    by (simp_all add: demo_fs_def)
  have n: "''tok'' \<noteq> []" and h: "solid (hd ''tok'')" and l: "solid (last ''tok'')"
    by (simp_all add: solid_letters)
  have c: "files (demo_fs [(''/t/alice'', ''abc\<newline>'')]) (tokensFile demo_cfg ''alice'') = Some ''abc\<newline>''"
    by (simp add: demo_fs_def tokensFile_def demo_cfg_def)
  from SetTokenValidation_duplicates [OF r "open" w n h l] r "open" w n h l c
  show ?thesis by simp
qed

text \<open>
  C7 as the specification states it fails: added twice to an empty allow-list and removed
  once, \<open>tok\<close> is still a member.
\<close>

theorem SetTokenValidation_twice_counterexample:
  "SetTokenValidation demo_cfg (demo_fs []) ''alice'' ''tok''
     = (demo_fs [(''/t/alice'', ''tok\<newline>'')], True)
   \<and> SetTokenValidation demo_cfg (demo_fs [(''/t/alice'', ''tok\<newline>'')]) ''alice'' ''tok''
     = (demo_fs [(''/t/alice'', ''tok\<newline>tok\<newline>'')], True)
   \<and> RemoveTokenValidation demo_cfg (demo_fs [(''/t/alice'', ''tok\<newline>tok\<newline>'')]) ''alice'' ''tok''
     = (demo_fs [(''/t/alice'', ''tok\<newline>'')], True)
   \<and> CheckTokenValidation demo_cfg (demo_fs [(''/t/alice'', ''tok\<newline>'')]) ''alice'' ''tok''"
proof -
  have t: "TrimSpace ''\<newline>tok\<newline>'' = ''tok''" by code_simp
  have m1: "(map_of [])(''/t/alice'' \<mapsto> ''tok\<newline>'') = map_of [(''/t/alice'', ''tok\<newline>'')]"
    by (rule ext) simp
  have m2: "(map_of [(''/t/alice'', ''tok\<newline>'')])(''/t/alice'' \<mapsto> ''tok\<newline>tok\<newline>'')
        = map_of [(''/t/alice'', ''tok\<newline>tok\<newline>'')]"
    by (rule ext) simp
  have m3: "(map_of [(''/t/alice'', ''tok\<newline>tok\<newline>'')])(''/t/alice'' \<mapsto> ''tok\<newline>'')
        = map_of [(''/t/alice'', ''tok\<newline>'')]"
    by (rule ext) simp
  show ?thesis
    by (simp add: CheckTokenValidation_def SetTokenValidation_def RemoveTokenValidation_def
        ReadFile_def OpenFile_def WriteString_def demo_fs_def tokensFile_def demo_cfg_def t m1 m2 m3)
qed

section \<open>Enabling 2FA for the first time\<close>

text \<open>
  C3, as the code has it. When \<open>OTPVerify\<close> answers with success for a user whose status
  reads \<open>0\<close>, is blank or cannot be read, and whose token file is not the status file, the
  token file has been emptied before the presented token was appended: afterwards it holds
  the line of the presented token and nothing else, and the status file holds \<open>1\<close>. A
  token then tests as a member exactly when it occurs in that line, so a token admitted
  before is no member any more unless it is a substring of the presented token, the
  presented token itself included.
\<close>

theorem OTPVerify_first_enablement:
  assumes "snd (OTPVerify lib cfg fs (Some jsonOTP)) =
             JSON 200 200 ''OTP verified'' (DataString (Token jsonOTP))"
    and "statusOld cfg fs (Username jsonOTP) = ''0'' \<or> statusOld cfg fs (Username jsonOTP) = []"
    and "tokensFile cfg (Username jsonOTP) \<noteq> statusFile cfg (Username jsonOTP)"
    and "tokensFile cfg (Username jsonOTP) \<notin> read_fails fs"
  shows "files (fst (OTPVerify lib cfg fs (Some jsonOTP))) (tokensFile cfg (Username jsonOTP))
           = Some (Token jsonOTP @ ''\<newline>'')
       \<and> files (fst (OTPVerify lib cfg fs (Some jsonOTP))) (statusFile cfg (Username jsonOTP))
           = Some ''1''
       \<and> CheckTokenValidation cfg (fst (OTPVerify lib cfg fs (Some jsonOTP))) (Username jsonOTP) t
           = sublist t (Token jsonOTP @ ''\<newline>'')"
proof -
  have eq: "OTPVerify lib cfg fs (Some jsonOTP) = enable2FA cfg fs (Username jsonOTP) (Token jsonOTP)"
    using OTPVerify_accepted [OF assms(1)] by (rule OTPVerify_tail)
  with assms(1) have "snd (enable2FA cfg fs (Username jsonOTP) (Token jsonOTP)) =
      JSON 200 200 ''OTP verified'' (DataString (Token jsonOTP))" by simp
  then have "fst (enable2FA cfg fs (Username jsonOTP) (Token jsonOTP)) =
      fs\<lparr>files := ((files fs)(tokensFile cfg (Username jsonOTP) \<mapsto> Token jsonOTP @ ''\<newline>''))
                       (statusFile cfg (Username jsonOTP) \<mapsto> ''1'')\<rparr>"
    using assms(2) by (rule enable2FA_success)
  with eq have "fst (OTPVerify lib cfg fs (Some jsonOTP)) =
      fs\<lparr>files := ((files fs)(tokensFile cfg (Username jsonOTP) \<mapsto> Token jsonOTP @ ''\<newline>''))
                       (statusFile cfg (Username jsonOTP) \<mapsto> ''1'')\<rparr>" by simp
  with assms(3,4) show ?thesis
    by (simp add: CheckTokenValidation_def ReadFile_def Contains_sublist)
qed

theorem OTPVerify_first_enablement_witness:
  "snd (OTPVerify demo_lib demo_cfg
          (demo_fs [(''/s/alice/secret'', ''S3CR3T''), (''/t/alice'', ''old\<newline>'')])
          (Some (demo_otp ''tok''))) =
     JSON 200 200 ''OTP verified'' (DataString (Token (demo_otp ''tok'')))
   \<and> statusOld demo_cfg (demo_fs [(''/s/alice/secret'', ''S3CR3T''), (''/t/alice'', ''old\<newline>'')])
        (Username (demo_otp ''tok'')) = []
   \<and> tokensFile demo_cfg (Username (demo_otp ''tok'')) \<noteq> statusFile demo_cfg (Username (demo_otp ''tok''))
   \<and> tokensFile demo_cfg (Username (demo_otp ''tok'')) \<notin>
        read_fails (demo_fs [(''/s/alice/secret'', ''S3CR3T''), (''/t/alice'', ''old\<newline>'')])
   \<and> CheckTokenValidation demo_cfg
        (demo_fs [(''/s/alice/secret'', ''S3CR3T''), (''/t/alice'', ''old\<newline>'')]) ''alice'' ''old''
   \<and> files (fst (OTPVerify demo_lib demo_cfg
          (demo_fs [(''/s/alice/secret'', ''S3CR3T''), (''/t/alice'', ''old\<newline>'')])
          (Some (demo_otp ''tok'')))) ''/t/alice'' = Some ''tok\<newline>''
   \<and> files (fst (OTPVerify demo_lib demo_cfg
          (demo_fs [(''/s/alice/secret'', ''S3CR3T''), (''/t/alice'', ''old\<newline>'')])
          (Some (demo_otp ''tok'')))) ''/s/alice/status'' = Some ''1''
   \<and> \<not> CheckTokenValidation demo_cfg (fst (OTPVerify demo_lib demo_cfg
          (demo_fs [(''/s/alice/secret'', ''S3CR3T''), (''/t/alice'', ''old\<newline>'')])
          (Some (demo_otp ''tok'')))) ''alice'' ''old''"
proof -
  let ?fs = "demo_fs [(''/s/alice/secret'', ''S3CR3T''), (''/t/alice'', ''old\<newline>'')]"
  have so: "statusOld demo_cfg ?fs (Username (demo_otp ''tok'')) = []"
    by (simp add: statusOld_def ReadFile_def demo_fs_def statusFile_def demo_cfg_def demo_otp_def
        TrimSpace_Nil)
  have ok: "snd (OTPVerify demo_lib demo_cfg ?fs (Some (demo_otp ''tok''))) =
     JSON 200 200 ''OTP verified'' (DataString (Token (demo_otp ''tok'')))"
    by (simp add: OTPVerify_def demo_otp_def ValidateAuth_def Parse_def demo_lib_def
        demo_token_def keyFunc_def index_def demo_claims_def GetUserSecret_def ReadFile_def
        OpenFile_def WriteString_def SetTokenValidation_def TrimSpace_Nil demo_fs_def
        secretFile_def statusFile_def tokensFile_def demo_cfg_def)
  have d: "tokensFile demo_cfg (Username (demo_otp ''tok'')) \<noteq> statusFile demo_cfg (Username (demo_otp ''tok''))"
    by (simp add: tokensFile_def statusFile_def demo_cfg_def demo_otp_def)
  have r: "tokensFile demo_cfg (Username (demo_otp ''tok'')) \<notin> read_fails ?fs"
    by (simp add: demo_fs_def)
  have b: "CheckTokenValidation demo_cfg ?fs ''alice'' ''old''"
    by (simp add: CheckTokenValidation_def ReadFile_def demo_fs_def tokensFile_def demo_cfg_def)
  have p: "tokensFile demo_cfg ''alice'' = ''/t/alice''"
    "statusFile demo_cfg ''alice'' = ''/s/alice/status''"
    "Username (demo_otp ''tok'') = ''alice''" "Token (demo_otp ''tok'') = ''tok''"
    by (simp_all add: tokensFile_def statusFile_def demo_cfg_def demo_otp_def)
  have n: "\<not> sublist ''old'' ''tok\<newline>''" by (simp add: sublist_code)
  from OTPVerify_first_enablement [OF ok disjI2 [OF so] d r, of "''old''"] ok so d r b n
  show ?thesis by (simp add: p)
qed

text \<open>
  C3 as the specification states it fails: \<open>ab\<close>, admitted before, is still a member
  after the first verification with the token \<open>abc\<close>; and a token that was admitted at
  login and is presented with the one-time password is a member before and after.
\<close>

theorem OTPVerify_first_enablement_counterexample:
  "statusOld demo_cfg (demo_fs [(''/s/alice/secret'', ''S3CR3T''), (''/t/alice'', ''ab\<newline>'')]) ''alice'' = []
   \<and> CheckTokenValidation demo_cfg
        (demo_fs [(''/s/alice/secret'', ''S3CR3T''), (''/t/alice'', ''ab\<newline>'')]) ''alice'' ''ab''
   \<and> snd (OTPVerify demo_lib demo_cfg
          (demo_fs [(''/s/alice/secret'', ''S3CR3T''), (''/t/alice'', ''ab\<newline>'')])
          (Some (demo_otp ''abc''))) = JSON 200 200 ''OTP verified'' (DataString ''abc'')
   \<and> CheckTokenValidation demo_cfg
        (fst (OTPVerify demo_lib demo_cfg
          (demo_fs [(''/s/alice/secret'', ''S3CR3T''), (''/t/alice'', ''ab\<newline>'')])
          (Some (demo_otp ''abc'')))) ''alice'' ''ab''
   \<and> CheckTokenValidation demo_cfg
        (demo_fs [(''/s/alice/secret'', ''S3CR3T''), (''/t/alice'', ''tok\<newline>'')]) ''alice'' ''tok''
   \<and> snd (OTPVerify demo_lib demo_cfg
          (demo_fs [(''/s/alice/secret'', ''S3CR3T''), (''/t/alice'', ''tok\<newline>'')])
          (Some (demo_otp ''tok''))) = JSON 200 200 ''OTP verified'' (DataString ''tok'')
   \<and> CheckTokenValidation demo_cfg
        (fst (OTPVerify demo_lib demo_cfg
          (demo_fs [(''/s/alice/secret'', ''S3CR3T''), (''/t/alice'', ''tok\<newline>'')])
          (Some (demo_otp ''tok'')))) ''alice'' ''tok''"
  by (simp add: OTPVerify_def demo_otp_def ValidateAuth_def Parse_def demo_lib_def
      demo_token_def keyFunc_def index_def demo_claims_def GetUserSecret_def ReadFile_def
      OpenFile_def WriteString_def SetTokenValidation_def CheckTokenValidation_def statusOld_def
      TrimSpace_Nil demo_fs_def secretFile_def statusFile_def tokensFile_def demo_cfg_def)

end
